theory Spec2Isabelle
  imports Main "HOL-Library.Word"
begin

unbundle bit_operations_syntax

section \<open>Bytes, digits and decimal rendering\<close>

text \<open>
  Go strings are byte sequences; \<open>string\<close> (a list of 8-bit characters) models them.
  The width of \<open>int\<close> and \<open>uint\<close> depends on the platform: it is the parameter
  \<open>intSize\<close> of the functions that convert to them, 64 on the amd64 and arm64
  builds and 32 on the 386 build of the release configuration.
  Debug printing (\<open>c.Debug\<close>, \<open>cfg.Debug\<close>) writes to standard output only and is
  left out of every function below.
\<close>

definition byte :: "char \<Rightarrow> nat" where
  "byte c = of_char c"

text \<open>
  The conversions \<open>int(x)\<close> and \<open>uint(x)\<close> of a \<open>uint64\<close>: the low \<open>intSize\<close> bits of
  \<open>x\<close>, read as two's complement and as unsigned.
\<close>

definition toInt :: "nat \<Rightarrow> 64 word \<Rightarrow> int" where
  "toInt intSize x = signed_take_bit (intSize - 1) (uint x)"

definition toUint :: "nat \<Rightarrow> 64 word \<Rightarrow> 64 word" where
  "toUint intSize x = take_bit intSize x"

text \<open>\<open>strconv.lower\<close>: \<open>c | ('x' - 'X')\<close>, the byte with bit 5 set.\<close>

definition lower :: "char \<Rightarrow> nat" where
  "lower c = byte c OR 32"

definition isDigit :: "char \<Rightarrow> bool" where
  "isDigit c = (byte (CHR ''0'') \<le> byte c \<and> byte c \<le> byte (CHR ''9''))"

definition isHexLetter :: "char \<Rightarrow> bool" where
  "isHexLetter c = (byte (CHR ''a'') \<le> lower c \<and> lower c \<le> byte (CHR ''f''))"

definition digitChar :: "nat \<Rightarrow> char" where
  "digitChar d = ''0123456789abcdef'' ! d"

text \<open>The verb \<open>%d\<close> on an unsigned value: decimal digits, most significant first.\<close>

function showNat :: "nat \<Rightarrow> string" where
  "showNat n = (if n < 10 then [digitChar n] else showNat (n div 10) @ [digitChar (n mod 10)])"
  by pat_completeness auto
termination
  by (relation "measure id") auto

declare showNat.simps [simp del]

definition showInt :: "int \<Rightarrow> string" where
  "showInt i = (if i < 0 then CHR ''-'' # showNat (nat (- i)) else showNat (nat i))"

text \<open>
  Lower-case hexadecimal without leading zeros (\<open>strconv.FormatUint(n, 16)\<close>): the
  \<open>toHex\<close> of the round-trip property of \<open>HexToUint64\<close>.
\<close>

function toHex :: "nat \<Rightarrow> string" where
  "toHex n = (if n < 16 then [digitChar n] else toHex (n div 16) @ [digitChar (n mod 16)])"
  by pat_completeness auto
termination
  by (relation "measure id") auto

declare toHex.simps [simp del]

text \<open>\<open>hex.EncodeToString\<close>: two lower-case hexadecimal digits per byte.\<close>

definition EncodeToString :: "string \<Rightarrow> string" where
  "EncodeToString bs = concat (map (\<lambda>b. [digitChar (byte b div 16), digitChar (byte b mod 16)]) bs)"

section \<open>strconv.ParseUint\<close>

datatype num_error = ErrSyntax | ErrRange

text \<open>
  The digit value \<open>ParseUint\<close> gives a byte: \<open>c - '0'\<close> for a decimal digit,
  \<open>lower(c) - 'a' + 10\<close> for a letter, and a syntax error for anything else.
\<close>

definition digitOf :: "char \<Rightarrow> nat option" where
  "digitOf c =
     (if isDigit c then Some (byte c - byte (CHR ''0''))
      else if byte (CHR ''a'') \<le> lower c \<and> lower c \<le> byte (CHR ''z'')
        then Some (lower c - byte (CHR ''a'') + 10)
      else None)"

text \<open>
  The loop of \<open>strconv.ParseUint\<close> over the bytes of \<open>s\<close>, on \<open>uint64\<close>: a byte that
  is no digit of the base is a syntax error, and a value that would pass
  \<open>maxVal\<close> (or wrap around) is a range error, returned at once.
\<close>

fun ParseUint_loop :: "64 word \<Rightarrow> 64 word \<Rightarrow> 64 word \<Rightarrow> 64 word \<Rightarrow> string \<Rightarrow> num_error + 64 word" where
  "ParseUint_loop base cutoff maxVal n [] = Inr n"
| "ParseUint_loop base cutoff maxVal n (c # cs) =
     (case digitOf c of
        None \<Rightarrow> Inl ErrSyntax
      | Some d \<Rightarrow>
          if of_nat d \<ge> base then Inl ErrSyntax
          else if n \<ge> cutoff then Inl ErrRange
          else let n1 = n * base + of_nat d in
            if n1 < n * base \<or> n1 > maxVal then Inl ErrRange
            else ParseUint_loop base cutoff maxVal n1 cs)"

text \<open>
  \<open>strconv.ParseUint(s, base, bitSize)\<close> for an explicit base \<open>2 \<le> base \<le> 36\<close> and
  \<open>1 \<le> bitSize \<le> 64\<close> (the program calls it with base 10 only, where no
  underscore and no sign is accepted).
\<close>

definition ParseUint :: "string \<Rightarrow> nat \<Rightarrow> nat \<Rightarrow> num_error + 64 word" where
  "ParseUint s base bitSize =
     (if s = [] then Inl ErrSyntax
      else ParseUint_loop (of_nat base) ((- 1) div of_nat base + 1) (2 ^ bitSize - 1) 0 s)"

section \<open>rpc.HexToUint64\<close>

text \<open>
  \<open>big.Int.SetString(s, base)\<close> for an explicit base \<open>2 \<le> base \<le> 36\<close>: an optional
  sign, then at least one digit of the base (letters in either case), and
  nothing else. A \<open>big.Int\<close> is an unbounded \<open>int\<close>.
\<close>

fun scanDigits :: "nat \<Rightarrow> nat \<Rightarrow> string \<Rightarrow> nat option" where
  "scanDigits base acc [] = Some acc"
| "scanDigits base acc (c # cs) =
     (case digitOf c of
        None \<Rightarrow> None
      | Some d \<Rightarrow> if d \<ge> base then None else scanDigits base (acc * base + d) cs)"

definition natScan :: "string \<Rightarrow> nat \<Rightarrow> nat option" where
  "natScan s base = (if s = [] then None else scanDigits base 0 s)"

definition SetString :: "string \<Rightarrow> nat \<Rightarrow> int option" where
  "SetString s base =
     (case s of
        [] \<Rightarrow> None
      | c # cs \<Rightarrow>
          if c = CHR ''-'' then map_option (\<lambda>n. - int n) (natScan cs base)
          else if c = CHR ''+'' then map_option int (natScan cs base)
          else map_option int (natScan s base))"

definition IsUint64 :: "int \<Rightarrow> bool" where
  "IsUint64 x = (0 \<le> x \<and> x < 2 ^ 64)"

datatype hex_error =
    InvalidHexValue string    \<comment> \<open>\<open>invalid hex value: %s\<close>\<close>
  | HexTooLarge string        \<comment> \<open>\<open>hex value too large for uint64: %s\<close>\<close>

definition HexToUint64 :: "string \<Rightarrow> hex_error + 64 word" where
  "HexToUint64 hex =
     (if hex = ''0x0'' then Inr 0
      else
        let hex' = (if length hex \<ge> 2 \<and> take 2 hex = ''0x'' then drop 2 hex else hex) in
        case SetString hex' 16 of
          None \<Rightarrow> Inl (InvalidHexValue hex')
        | Some v \<Rightarrow>
            if \<not> IsUint64 v then Inl (HexTooLarge hex')
            else Inr (word_of_int v))"

section \<open>strings.TrimSpace and strings.EqualFold\<close>

text \<open>
  The UTF-8 encodings of the runes \<open>unicode.IsSpace\<close> accepts: the six ASCII
  spaces, U+0085, U+00A0, U+1680, U+2000 to U+200A, U+2028, U+2029, U+202F,
  U+205F and U+3000.
\<close>

definition spaceEncodings :: "string list" where
  "spaceEncodings =
     [[CHR 0x09], [CHR 0x0A], [CHR 0x0B], [CHR 0x0C], [CHR 0x0D], [CHR 0x20],
      [CHR 0xC2, CHR 0x85], [CHR 0xC2, CHR 0xA0], [CHR 0xE1, CHR 0x9A, CHR 0x80],
      [CHR 0xE2, CHR 0x80, CHR 0x80], [CHR 0xE2, CHR 0x80, CHR 0x81], [CHR 0xE2, CHR 0x80, CHR 0x82],
      [CHR 0xE2, CHR 0x80, CHR 0x83], [CHR 0xE2, CHR 0x80, CHR 0x84], [CHR 0xE2, CHR 0x80, CHR 0x85],
      [CHR 0xE2, CHR 0x80, CHR 0x86], [CHR 0xE2, CHR 0x80, CHR 0x87], [CHR 0xE2, CHR 0x80, CHR 0x88],
      [CHR 0xE2, CHR 0x80, CHR 0x89], [CHR 0xE2, CHR 0x80, CHR 0x8A], [CHR 0xE2, CHR 0x80, CHR 0xA8],
      [CHR 0xE2, CHR 0x80, CHR 0xA9], [CHR 0xE2, CHR 0x80, CHR 0xAF], [CHR 0xE2, CHR 0x81, CHR 0x9F],
      [CHR 0xE3, CHR 0x80, CHR 0x80]]"

definition HasPrefix :: "string \<Rightarrow> string \<Rightarrow> bool" where
  "HasPrefix s p = (length s \<ge> length p \<and> take (length p) s = p)"

text \<open>The length of the space rune that \<open>s\<close> starts with; 0 when it starts with none.\<close>

definition leadingSpace :: "string list \<Rightarrow> string \<Rightarrow> nat" where
  "leadingSpace encs s = (case filter (HasPrefix s) encs of [] \<Rightarrow> 0 | p # _ \<Rightarrow> length p)"

function trimLeft :: "string list \<Rightarrow> string \<Rightarrow> string" where
  "trimLeft encs s =
     (if s = [] \<or> leadingSpace encs s = 0 then s
      else trimLeft encs (drop (leadingSpace encs s) s))"
  by pat_completeness auto
termination
  by (relation "measure (\<lambda>(encs, s). length s)") auto

declare trimLeft.simps [simp del]

text \<open>
  \<open>strings.TrimSpace\<close>: the leading space runes are removed, then the trailing ones
  (a trailing rune is read backwards, so the reversed encodings are stripped
  from the reversed string).
\<close>

definition TrimSpace :: "string \<Rightarrow> string" where
  "TrimSpace s = rev (trimLeft (map rev spaceEncodings) (rev (trimLeft spaceEncodings s)))"

text \<open>
  \<open>strings.EqualFold\<close>, on ASCII: two bytes match when they are equal or are the
  two cases of one letter. The program compares a topic with the output of
  \<open>GetEventSignatureHash\<close> only, which is made of the characters \<open>0-9\<close>, \<open>a-f\<close> and
  \<open>x\<close>; none of them folds to a rune outside ASCII, so that a topic with a byte
  outside ASCII never matches, here as in Go.
\<close>

definition foldByte :: "char \<Rightarrow> nat" where
  "foldByte c = (if byte (CHR ''A'') \<le> byte c \<and> byte c \<le> byte (CHR ''Z'') then byte c + 32 else byte c)"

fun EqualFold :: "string \<Rightarrow> string \<Rightarrow> bool" where
  "EqualFold [] [] = True"
| "EqualFold (c # s) (d # t) = (foldByte c = foldByte d \<and> EqualFold s t)"
| "EqualFold _ _ = False"

section \<open>float64, the verb \<open>%.0f\<close> and strconv.ParseFloat\<close>

text \<open>
  A \<open>float64\<close> is a sign with a magnitude \<open>m * 2 ^ e\<close>, an infinity or a NaN; the
  values of the type are those with \<open>m < 2 ^ 53\<close> and \<open>- 1074 \<le> e \<le> 971\<close>. Only
  formatting and parsing are modelled, and both are exact integer arithmetic.
\<close>

datatype float64 = F64 bool nat int | F64Inf bool | F64NaN

fun isFloat64 :: "float64 \<Rightarrow> bool" where
  "isFloat64 (F64 neg m e) = (m < 2 ^ 53 \<and> - 1074 \<le> e \<and> e \<le> 971)"
| "isFloat64 _ = True"

fun isFinite :: "float64 \<Rightarrow> bool" where
  "isFinite (F64 neg m e) = True"
| "isFinite _ = False"

text \<open>\<open>n / d\<close> rounded to the nearest integer, a tie to the even one.\<close>

definition roundHalfEven :: "nat \<Rightarrow> nat \<Rightarrow> nat" where
  "roundHalfEven n d =
     (let q = n div d; r = n mod d in
      if 2 * r < d then q
      else if 2 * r > d then q + 1
      else if even q then q else q + 1)"

text \<open>
  \<open>fmt.Sprintf("%.0f", v)\<close>: the value rounded to an integer (half to even, on the
  exact binary value), in decimal, with \<open>-\<close> when the sign bit is set.
\<close>

fun Sprintf_f0 :: "float64 \<Rightarrow> string" where
  "Sprintf_f0 (F64 neg m e) =
     (if neg then ''-'' else []) @
     showNat (if e \<ge> 0 then m * 2 ^ nat e else roundHalfEven m (2 ^ nat (- e)))"
| "Sprintf_f0 (F64Inf neg) = (if neg then ''-Inf'' else ''+Inf'')"
| "Sprintf_f0 F64NaN = ''NaN''"

fun commonPrefixLenIgnoreCase :: "string \<Rightarrow> string \<Rightarrow> nat" where
  "commonPrefixLenIgnoreCase (c # s) (p # prefix) =
     (if foldByte c = byte p then Suc (commonPrefixLenIgnoreCase s prefix) else 0)"
| "commonPrefixLenIgnoreCase _ _ = 0"

definition infinityPrefix :: "bool \<Rightarrow> nat \<Rightarrow> string \<Rightarrow> (float64 \<times> nat) option" where
  "infinityPrefix neg nsign s =
     (let n = commonPrefixLenIgnoreCase s ''infinity'';
          n' = (if 3 < n \<and> n < 8 then 3 else n)
      in if n' = 3 \<or> n' = 8 then Some (F64Inf neg, nsign + n') else None)"

text \<open>\<open>strconv.special\<close>: a signed infinity or an unsigned NaN, and the bytes it takes.\<close>

definition special :: "string \<Rightarrow> (float64 \<times> nat) option" where
  "special s =
     (case s of
        [] \<Rightarrow> None
      | c # cs \<Rightarrow>
          if c = CHR ''+'' \<or> c = CHR ''-'' then infinityPrefix (c = CHR ''-'') 1 cs
          else if c = CHR ''i'' \<or> c = CHR ''I'' then infinityPrefix False 0 s
          else if c = CHR ''n'' \<or> c = CHR ''N'' then
            (if commonPrefixLenIgnoreCase s ''nan'' = 3 then Some (F64NaN, 3) else None)
          else None)"

text \<open>
  \<open>strconv.underscoreOK\<close>: an underscore stands between two digits, or between a
  base prefix and a digit. \<open>saw\<close> is the kind of the last character read.
\<close>

fun underscoreOK_loop :: "bool \<Rightarrow> char \<Rightarrow> string \<Rightarrow> bool" where
  "underscoreOK_loop hex saw [] = (saw \<noteq> CHR ''_'')"
| "underscoreOK_loop hex saw (c # cs) =
     (if isDigit c \<or> (hex \<and> isHexLetter c) then underscoreOK_loop hex (CHR ''0'') cs
      else if c = CHR ''_'' then (if saw \<noteq> CHR ''0'' then False else underscoreOK_loop hex (CHR ''_'') cs)
      else if saw = CHR ''_'' then False
      else underscoreOK_loop hex (CHR ''!'') cs)"

definition underscoreOK :: "string \<Rightarrow> bool" where
  "underscoreOK s =
     (let s1 = (case s of c # cs \<Rightarrow> if c = CHR ''-'' \<or> c = CHR ''+'' then cs else s | [] \<Rightarrow> s)
      in case s1 of
           c0 # c1 # cs \<Rightarrow>
             if c0 = CHR ''0'' \<and> (lower c1 = byte (CHR ''b'') \<or> lower c1 = byte (CHR ''o'') \<or> lower c1 = byte (CHR ''x''))
             then underscoreOK_loop (lower c1 = byte (CHR ''x'')) (CHR ''0'') cs
             else underscoreOK_loop False (CHR ''^'') s1
         | _ \<Rightarrow> underscoreOK_loop False (CHR ''^'') s1)"

text \<open>
  The mantissa loop of \<open>strconv.readFloat\<close>: digits of the base, underscores
  and at most one point. The mantissa is kept whole (Go keeps its first 19
  digits and a flag for the rest, and converts from the full digit string
  when that matters, so that the result is the correctly rounded one).
\<close>

record mantissa_scan =
  sawdot :: bool
  sawdigits :: bool
  underscores :: bool
  mantissa :: nat
  fracDigits :: nat

fun scanMantissa :: "nat \<Rightarrow> mantissa_scan \<Rightarrow> string \<Rightarrow> mantissa_scan \<times> string" where
  "scanMantissa base st [] = (st, [])"
| "scanMantissa base st (c # cs) =
     (if c = CHR ''_'' then scanMantissa base (st\<lparr>underscores := True\<rparr>) cs
      else if c = CHR ''.'' then
        (if sawdot st then (st, c # cs) else scanMantissa base (st\<lparr>sawdot := True\<rparr>) cs)
      else if isDigit c then
        scanMantissa base
          (st\<lparr>sawdigits := True, mantissa := mantissa st * base + (byte c - byte (CHR ''0'')),
              fracDigits := fracDigits st + (if sawdot st then 1 else 0)\<rparr>) cs
      else if base = 16 \<and> isHexLetter c then
        scanMantissa base
          (st\<lparr>sawdigits := True, mantissa := mantissa st * base + (lower c - byte (CHR ''a'') + 10),
              fracDigits := fracDigits st + (if sawdot st then 1 else 0)\<rparr>) cs
      else (st, c # cs))"

text \<open>The exponent digits: the value stops growing once it has reached 10000.\<close>

fun scanExponent :: "int \<Rightarrow> bool \<Rightarrow> string \<Rightarrow> int \<times> bool \<times> string" where
  "scanExponent e us [] = (e, us, [])"
| "scanExponent e us (c # cs) =
     (if c = CHR ''_'' then scanExponent e True cs
      else if isDigit c then
        scanExponent (if e < 10000 then e * 10 + int (byte c - byte (CHR ''0'')) else e) us cs
      else (e, us, c # cs))"

text \<open>
  The exponent part of \<open>strconv.readFloat\<close>: \<open>e\<close> (or \<open>p\<close> for a hexadecimal
  number), an optional sign and at least one digit. A hexadecimal number must
  have one.
\<close>

definition readExponent :: "bool \<Rightarrow> string \<Rightarrow> (int \<times> bool \<times> string) option" where
  "readExponent hex s =
     (case s of
        c # cs \<Rightarrow>
          if lower c = byte (if hex then CHR ''p'' else CHR ''e'') then
            (case cs of
               [] \<Rightarrow> None
             | d # ds \<Rightarrow>
                 let (esign, s4) = (if d = CHR ''+'' then (1, ds) else if d = CHR ''-'' then (- 1, ds) else (1, cs))
                 in (case s4 of
                       [] \<Rightarrow> None
                     | x # _ \<Rightarrow>
                         if \<not> isDigit x then None
                         else (case scanExponent 0 False s4 of (e, us, rest) \<Rightarrow> Some (e * esign, us, rest))))
          else if hex then None
          else Some (0, False, s)
      | [] \<Rightarrow> if hex then None else Some (0, False, s))"

text \<open>
  \<open>strconv.readFloat\<close>: sign, mantissa, exponent of the number \<open>s\<close> starts with, as
  \<open>(neg, hex, mantissa, exp, n)\<close>: the value is \<open>mantissa * 10 ^ exp\<close>, or
  \<open>mantissa * 2 ^ exp\<close> for a hexadecimal number, and \<open>n\<close> bytes were read.
\<close>

definition readFloat :: "string \<Rightarrow> (bool \<times> bool \<times> nat \<times> int \<times> nat) option" where
  "readFloat s =
     (let (neg, s1) = (case s of c # cs \<Rightarrow> if c = CHR ''+'' then (False, cs) else if c = CHR ''-'' then (True, cs) else (False, s)
                               | [] \<Rightarrow> (False, s));
          (hex, s2) = (case s1 of c0 # c1 # c2 # cs \<Rightarrow>
                          if c0 = CHR ''0'' \<and> lower c1 = byte (CHR ''x'') then (True, c2 # cs) else (False, s1)
                        | _ \<Rightarrow> (False, s1));
          (st, s3) = scanMantissa (if hex then 16 else 10)
                       \<lparr>sawdot = False, sawdigits = False, underscores = False, mantissa = 0, fracDigits = 0\<rparr> s2
      in if \<not> sawdigits st then None
         else (case readExponent hex s3 of
                 None \<Rightarrow> None
               | Some (e, us, rest) \<Rightarrow>
                   let n = length s - length rest in
                   if (underscores st \<or> us) \<and> \<not> underscoreOK (take n s) then None
                   else Some (neg, hex, mantissa st,
                              (if hex then e - 4 * int (fracDigits st) else e - int (fracDigits st)), n)))"

function bitlen :: "nat \<Rightarrow> nat" where
  "bitlen n = (if n = 0 then 0 else Suc (bitlen (n div 2)))"
  by pat_completeness auto
termination
  by (relation "measure id") auto

declare bitlen.simps [simp del]

text \<open>\<open>n / (d * 2 ^ e)\<close> as a fraction of naturals.\<close>

definition scaled :: "nat \<Rightarrow> nat \<Rightarrow> int \<Rightarrow> nat \<times> nat" where
  "scaled n d e = (if e \<ge> 0 then (n, d * 2 ^ nat e) else (n * 2 ^ nat (- e), d))"

text \<open>
  The \<open>float64\<close> nearest to \<open>n / d\<close> (IEEE 754 round to nearest, ties to even),
  for a value below the overflow threshold.
\<close>

definition nearestFloat64 :: "bool \<Rightarrow> nat \<Rightarrow> nat \<Rightarrow> float64" where
  "nearestFloat64 neg n d =
     (if n = 0 then F64 neg 0 0
      else
        let k = int (bitlen n) - int (bitlen d);
            lg = (case scaled n d k of (n1, d1) \<Rightarrow> if n1 \<ge> d1 then k else k - 1);
            e = max (lg - 52) (- 1074);
            m = (case scaled n d e of (n2, d2) \<Rightarrow> roundHalfEven n2 d2)
        in if m = 2 ^ 53 then F64 neg (2 ^ 52) (e + 1) else F64 neg m e)"

text \<open>
  \<open>strconv.ParseFloat(s, 64)\<close>: the whole of \<open>s\<close> is a special value or a decimal or
  hexadecimal floating-point number; a number that rounds to \<open>2 ^ 1024\<close> or
  more (it is at least \<open>2 ^ 1024 - 2 ^ 970\<close>, half a unit in the last place
  above the largest \<open>float64\<close>) is a range error.
\<close>

definition ParseFloat :: "string \<Rightarrow> num_error + float64" where
  "ParseFloat s =
     (case special s of
        Some (f, n) \<Rightarrow> if n \<noteq> length s then Inl ErrSyntax else Inr f
      | None \<Rightarrow>
          (case readFloat s of
             None \<Rightarrow> Inl ErrSyntax
           | Some (neg, hex, mant, ex, n) \<Rightarrow>
               if n \<noteq> length s then Inl ErrSyntax
               else
                 let b = (if hex then 2 else 10 :: nat);
                     num = (if ex \<ge> 0 then mant * b ^ nat ex else mant);
                     den = (if ex \<ge> 0 then 1 else b ^ nat (- ex))
                 in if num \<ge> den * (2 ^ 1024 - 2 ^ 970) then Inl ErrRange
                    else Inr (nearestFloat64 neg num den)))"

section \<open>The proof service client (pkg/api/client.go)\<close>

text \<open>
  What \<open>json.Unmarshal\<close> stores in an \<open>interface{}\<close>: \<open>nil\<close>, \<open>bool\<close>, \<open>float64\<close>,
  \<open>string\<close>, \<open>[]interface{}\<close> or \<open>map[string]interface{}\<close>.
\<close>

datatype json =
    JNull
  | JBool bool
  | JNumber float64
  | JString string
  | JArray "json list"
  | JObject "(string \<times> json) list"

record ProofStatusResponse =
  Status :: string
  Proof :: string
  Error :: string

text \<open>
  The HTTP exchange of one call is the environment's: it is an oracle that
  answers the \<open>k\<close>-th exchange of a run with a decoded result or with the error
  of the step that failed (sending, reading the body, the HTTP status, the
  JSON-RPC envelope, the JSON-RPC error, decoding the status payload).
\<close>

datatype exchange_error =
    CreateRequestFailed string    \<comment> \<open>\<open>failed to create HTTP request: %w\<close>\<close>
  | RequestFailed string          \<comment> \<open>\<open>request failed: %w\<close>\<close>
  | ReadBodyFailed string         \<comment> \<open>\<open>failed to read response body: %w\<close>\<close>
  | BadStatusCode int string      \<comment> \<open>\<open>API request failed with status %d: %s\<close>\<close>
  | UnmarshalResponseFailed string  \<comment> \<open>\<open>failed to unmarshal response: %w\<close>\<close>
  | APIReturnedError string       \<comment> \<open>\<open>API returned error: %s\<close>\<close>
  | MarshalResultFailed string    \<comment> \<open>\<open>failed to marshal result: %w\<close>\<close>
  | UnmarshalStatusFailed string  \<comment> \<open>\<open>failed to unmarshal status response: %w\<close>\<close>

record remote =
  requestProofReply :: "nat \<Rightarrow> 64 word \<Rightarrow> 64 word \<Rightarrow> 64 word \<Rightarrow> 64 word \<Rightarrow> exchange_error + json"
  queryProofReply :: "nat \<Rightarrow> float64 \<Rightarrow> exchange_error + ProofStatusResponse"

text \<open>
  The effects of the client: the number of exchanges made so far, and the
  durations slept, oldest first.
\<close>

record api_state =
  calls :: nat
  sleeps :: "int list"

datatype api_error =
    Exchange exchange_error
  | UnexpectedResultType json     \<comment> \<open>\<open>unexpected result type: %T\<close>\<close>
  | InvalidJobID string num_error \<comment> \<open>\<open>invalid job ID: %w\<close>, the spec's \<open>InvalidJobIDError\<close>\<close>
  | MarshalRequestFailed          \<comment> \<open>\<open>failed to marshal request: %w\<close>\<close>
  | ProofGenerationFailed string  \<comment> \<open>\<open>proof generation failed: %s\<close>\<close>
  | UnknownJobStatus string       \<comment> \<open>\<open>unknown job status: %s\<close>, the spec's \<open>UnknownStatusError\<close>\<close>
  | MaxPollingAttempts int        \<comment> \<open>\<open>max polling attempts (%d) reached without completion\<close>, the spec's \<open>PollingTimeoutError\<close>\<close>

text \<open>
  The text of the errors \<open>WaitForProof\<close> makes itself; an error that wraps a
  library error has that library's text, which is not modelled.
\<close>

fun api_error_text :: "api_error \<Rightarrow> string option" where
  "api_error_text (ProofGenerationFailed msg) = Some (''proof generation failed: '' @ msg)"
| "api_error_text (UnknownJobStatus st) = Some (''unknown job status: '' @ st)"
| "api_error_text (MaxPollingAttempts n) =
     Some (''max polling attempts ('' @ showInt n @ '') reached without completion'')"
| "api_error_text (Exchange (APIReturnedError msg)) = Some (''API returned error: '' @ msg)"
| "api_error_text _ = None"

text \<open>
  \<open>RequestProof\<close>: one exchange; the result is the job identifier, a string as it
  is or a number through \<open>%.0f\<close>.
\<close>

definition RequestProof ::
  "remote \<Rightarrow> 64 word \<Rightarrow> 64 word \<Rightarrow> 64 word \<Rightarrow> 64 word \<Rightarrow> api_state \<Rightarrow> (api_error + string) \<times> api_state" where
  "RequestProof R srcChainID srcBlockNumber txIndex logIndex s =
     (case requestProofReply R (calls s) srcChainID srcBlockNumber txIndex logIndex of
        Inl e \<Rightarrow> (Inl (Exchange e), s\<lparr>calls := calls s + 1\<rparr>)
      | Inr result \<Rightarrow>
          (case result of
             JString v \<Rightarrow> (Inr v, s\<lparr>calls := calls s + 1\<rparr>)
           | JNumber v \<Rightarrow> (Inr (Sprintf_f0 v), s\<lparr>calls := calls s + 1\<rparr>)
           | _ \<Rightarrow> (Inl (UnexpectedResultType result), s\<lparr>calls := calls s + 1\<rparr>)))"

text \<open>
  \<open>GetProofStatus\<close>: the job identifier is parsed with \<open>strconv.ParseFloat\<close> first;
  \<open>json.Marshal\<close> refuses an infinity and a NaN; then one exchange.
\<close>

definition GetProofStatus ::
  "remote \<Rightarrow> string \<Rightarrow> api_state \<Rightarrow> (api_error + ProofStatusResponse) \<times> api_state" where
  "GetProofStatus R jobID s =
     (case ParseFloat jobID of
        Inl err \<Rightarrow> (Inl (InvalidJobID jobID err), s)
      | Inr jobIDNum \<Rightarrow>
          if \<not> isFinite jobIDNum then (Inl MarshalRequestFailed, s)
          else
            (case queryProofReply R (calls s) jobIDNum of
               Inl e \<Rightarrow> (Inl (Exchange e), s\<lparr>calls := calls s + 1\<rparr>)
             | Inr statusResponse \<Rightarrow> (Inr statusResponse, s\<lparr>calls := calls s + 1\<rparr>)))"

text \<open>
  The loop of \<open>WaitForProof\<close>, from the value \<open>attempt\<close> of its counter.
  \<open>time.Sleep(interval)\<close> is recorded in \<open>sleeps\<close>.
\<close>

function WaitForProof_loop ::
  "remote \<Rightarrow> string \<Rightarrow> int \<Rightarrow> int \<Rightarrow> int \<Rightarrow> api_state \<Rightarrow> (api_error + ProofStatusResponse) \<times> api_state" where
  "WaitForProof_loop R jobID maxAttempts interval attempt s =
     (if attempt < maxAttempts then
        (case GetProofStatus R jobID s of
           (Inl err, s') \<Rightarrow> (Inl err, s')
         | (Inr status, s') \<Rightarrow>
             if Status status = ''complete'' \<or> Status status = ''completed'' then (Inr status, s')
             else if Status status = ''failed'' then (Inl (ProofGenerationFailed (Error status)), s')
             else if Status status = ''pending'' \<or> Status status = ''processing'' then
               WaitForProof_loop R jobID maxAttempts interval (attempt + 1)
                 (s'\<lparr>sleeps := sleeps s' @ [interval]\<rparr>)
             else (Inl (UnknownJobStatus (Status status)), s'))
      else (Inl (MaxPollingAttempts maxAttempts), s))"
  by pat_completeness auto
termination
  by (relation "measure (\<lambda>(R, jobID, maxAttempts, interval, attempt, s). nat (maxAttempts - attempt))") auto

declare WaitForProof_loop.simps [simp del]

definition WaitForProof ::
  "remote \<Rightarrow> string \<Rightarrow> int \<Rightarrow> int \<Rightarrow> api_state \<Rightarrow> (api_error + ProofStatusResponse) \<times> api_state" where
  "WaitForProof R jobID maxAttempts interval s = WaitForProof_loop R jobID maxAttempts interval 0 s"

section \<open>The blockchain RPC client (pkg/rpc/client.go)\<close>

record Transaction =
  tx_Hash :: string
  tx_BlockNumber :: string
  tx_BlockHash :: string
  tx_From :: string
  tx_To :: string
  tx_ChainID :: string

record Log =
  log_LogIndex :: string
  log_TransactionIndex :: string
  log_TransactionHash :: string
  log_BlockHash :: string
  log_BlockNumber :: string
  log_Address :: string
  log_Data :: string
  log_Topics :: "string list"

record TransactionReceipt =
  receipt_TransactionHash :: string
  receipt_TransactionIndex :: string
  receipt_BlockNumber :: string
  receipt_BlockHash :: string
  receipt_Status :: string
  receipt_Logs :: "Log list"

datatype rpc_error =
    RPCSendFailed string          \<comment> \<open>\<open>failed to send request: %w\<close>\<close>
  | RPCReadBodyFailed string      \<comment> \<open>\<open>failed to read response body: %w\<close>\<close>
  | RPCBadStatusCode int string   \<comment> \<open>\<open>RPC request failed with status %d: %s\<close>\<close>
  | RPCUnmarshalFailed string     \<comment> \<open>\<open>failed to unmarshal response: %w\<close>\<close>
  | RPCReturnedError string       \<comment> \<open>\<open>RPC returned error: %s\<close>\<close>
  | RPCDecodeFailed string        \<comment> \<open>\<open>failed to unmarshal transaction: %w\<close> and \<open>... receipt: %w\<close>\<close>

text \<open>The node behind the RPC URL: what each of the two methods answers for a hash.\<close>

record node =
  eth_getTransactionByHash :: "string \<Rightarrow> rpc_error + Transaction"
  eth_getTransactionReceipt :: "string \<Rightarrow> rpc_error + TransactionReceipt"

definition GetTransaction :: "node \<Rightarrow> string \<Rightarrow> rpc_error + Transaction" where
  "GetTransaction nd txHash =
     eth_getTransactionByHash nd (if \<not> HasPrefix txHash ''0x'' then ''0x'' @ txHash else txHash)"

definition GetTransactionReceipt :: "node \<Rightarrow> string \<Rightarrow> rpc_error + TransactionReceipt" where
  "GetTransactionReceipt nd txHash =
     eth_getTransactionReceipt nd (if \<not> HasPrefix txHash ''0x'' then ''0x'' @ txHash else txHash)"

text \<open>
  \<open>GetEventSignatureHash\<close>: \<open>0x\<close> and the lower-case hexadecimal digest of the
  signature's bytes. The digest, \<open>sha3.NewLegacyKeccak256\<close> of
  \<open>golang.org/x/crypto\<close>, is the parameter \<open>keccak256\<close>; writing to it never fails.
\<close>

definition GetEventSignatureHash :: "(string \<Rightarrow> string) \<Rightarrow> string \<Rightarrow> string + string" where
  "GetEventSignatureHash keccak256 eventSignature = Inr (''0x'' @ EncodeToString (keccak256 eventSignature))"

section \<open>Resolving a transaction hash (cmd/polymer-cli/cmd/request.go)\<close>

datatype cmd_error =
    GetTransactionFailed rpc_error      \<comment> \<open>\<open>failed to get transaction: %w\<close>\<close>
  | GetReceiptFailed rpc_error          \<comment> \<open>\<open>failed to get transaction receipt: %w\<close>\<close>
  | InvalidBlockNumber hex_error        \<comment> \<open>\<open>invalid block number in receipt: %w\<close>\<close>
  | InvalidTransactionIndex hex_error   \<comment> \<open>\<open>invalid transaction index in receipt: %w\<close>\<close>
  | InvalidChainID hex_error            \<comment> \<open>\<open>invalid chain ID in transaction: %w\<close>\<close>
  | ChainIDNotFound                     \<comment> \<open>the spec's \<open>MissingChainIDError\<close>\<close>
  | NoLogsFound                         \<comment> \<open>the spec's \<open>NoLogsError\<close>\<close>
  | InvalidLogIndex string num_error    \<comment> \<open>\<open>invalid log index: %w\<close>\<close>
  | LogIndexOutOfRange "64 word" int    \<comment> \<open>the spec's \<open>IndexOutOfRangeError\<close>\<close>
  | EventSignatureHashFailed string     \<comment> \<open>\<open>failed to get event signature hash: %w\<close>\<close>
  | NoLogWithEventSignature string      \<comment> \<open>the spec's \<open>NoMatchingLogError\<close>\<close>
  | RequestProofFailed api_error        \<comment> \<open>\<open>failed to request proof: %w\<close>\<close>
  | WaitForProofFailed api_error        \<comment> \<open>\<open>failed while waiting for proof: %w\<close>\<close>

fun cmd_error_text :: "cmd_error \<Rightarrow> string option" where
  "cmd_error_text ChainIDNotFound =
     Some ''chain ID not found in transaction, please provide it with --chain-id flag''"
| "cmd_error_text NoLogsFound = Some ''no logs found in transaction receipt''"
| "cmd_error_text (LogIndexOutOfRange logIdxParsed n) =
     Some (''log index '' @ showNat (unat logIdxParsed) @ '' is out of range, transaction has '' @
           showInt n @ '' logs'')"
| "cmd_error_text (NoLogWithEventSignature eventSignature) =
     Some (''no log found with event signature: '' @ eventSignature)"
| "cmd_error_text _ = None"

text \<open>
  The search of case 2: the first log, in receipt order, that has a topic and
  whose first topic is \<open>EqualFold\<close> to the hash of the signature; \<open>i\<close> is the
  index of the head of the list.
\<close>

fun findLog :: "(string \<Rightarrow> string) \<Rightarrow> string \<Rightarrow> nat \<Rightarrow> Log list \<Rightarrow> cmd_error + nat option" where
  "findLog keccak256 normalizedSig i [] = Inr None"
| "findLog keccak256 normalizedSig i (log # logs) =
     (if length (log_Topics log) > 0 then
        (case GetEventSignatureHash keccak256 normalizedSig of
           Inl err \<Rightarrow> Inl (EventSignatureHashFailed err)
         | Inr eventHash \<Rightarrow>
             if EqualFold (log_Topics log ! 0) eventHash then Inr (Some i)
             else findLog keccak256 normalizedSig (i + 1) logs)
      else findLog keccak256 normalizedSig (i + 1) logs)"

text \<open>
  ``Determine which log to use'' (lines 181 to 255): the flags \<open>--log-index\<close>
  and \<open>--event-signature\<close> are the strings \<open>logIndex\<close> and \<open>eventSignature\<close>, empty
  when not given. The result is \<open>logIdx\<close>. The range check of case 1 compares
  \<open>int(logIdxParsed)\<close> with the number of logs. In case 2 \<open>uint(i)\<close> is exact on
  every platform, \<open>i\<close> being an index of the slice.
\<close>

definition determineLog ::
  "nat \<Rightarrow> (string \<Rightarrow> string) \<Rightarrow> string \<Rightarrow> string \<Rightarrow> Log list \<Rightarrow> cmd_error + 64 word" where
  "determineLog intSize keccak256 logIndex eventSignature logs =
     (if length logs = 0 then Inl NoLogsFound
      else if logIndex \<noteq> [] then
        (case ParseUint logIndex 10 32 of
           Inl err \<Rightarrow> Inl (InvalidLogIndex logIndex err)
         | Inr logIdxParsed \<Rightarrow>
             if toInt intSize logIdxParsed \<ge> int (length logs)
             then Inl (LogIndexOutOfRange logIdxParsed (int (length logs)))
             else Inr (toUint intSize logIdxParsed))
      else if eventSignature \<noteq> [] then
        (case findLog keccak256 (TrimSpace eventSignature) 0 logs of
           Inl err \<Rightarrow> Inl err
         | Inr None \<Rightarrow> Inl (NoLogWithEventSignature eventSignature)
         | Inr (Some i) \<Rightarrow> Inr (of_nat i))
      else Inr 0)"

record TransactionCoordinates =
  chainID :: "64 word"
  blockNumber :: "64 word"
  txIndex :: "64 word"
  logIdx :: "64 word"

text \<open>
  The spec's \<open>resolve\<close>: \<open>processTransactionByHash\<close> up to the proof request (lines
  132 to 255), in the order of the source: the transaction, the receipt, the
  block number, the transaction index, the chain ID, then the log.
\<close>

definition resolve ::
  "nat \<Rightarrow> node \<Rightarrow> (string \<Rightarrow> string) \<Rightarrow> string \<Rightarrow> string \<Rightarrow> string \<Rightarrow> cmd_error + TransactionCoordinates" where
  "resolve intSize nd keccak256 txHash logIndex eventSignature =
     (case GetTransaction nd txHash of
        Inl err \<Rightarrow> Inl (GetTransactionFailed err)
      | Inr tx \<Rightarrow>
     (case GetTransactionReceipt nd txHash of
        Inl err \<Rightarrow> Inl (GetReceiptFailed err)
      | Inr receipt \<Rightarrow>
     (case HexToUint64 (receipt_BlockNumber receipt) of
        Inl err \<Rightarrow> Inl (InvalidBlockNumber err)
      | Inr blockNum \<Rightarrow>
     (case HexToUint64 (receipt_TransactionIndex receipt) of
        Inl err \<Rightarrow> Inl (InvalidTransactionIndex err)
      | Inr txIdx \<Rightarrow>
          if tx_ChainID tx \<noteq> [] then
            (case HexToUint64 (tx_ChainID tx) of
               Inl err \<Rightarrow> Inl (InvalidChainID err)
             | Inr chainIDUint \<Rightarrow>
                 (case determineLog intSize keccak256 logIndex eventSignature (receipt_Logs receipt) of
                    Inl err \<Rightarrow> Inl err
                  | Inr i \<Rightarrow>
                      Inr \<lparr>chainID = chainIDUint, blockNumber = blockNum, txIndex = txIdx, logIdx = i\<rparr>))
          else Inl ChainIDNotFound))))"

text \<open>
  \<open>processTransactionByHash\<close>: the coordinates, the proof request (of
  \<open>uint(txIdx)\<close>) and, with
  \<open>--wait\<close>, the polling of \<open>waitAndDisplayProof\<close>, with \<open>cfg.MaxAttempts\<close> and
  the duration \<open>cfg.Interval\<close> milliseconds as \<open>maxAttempts\<close> and \<open>interval\<close>. The
  printing of the job identifier and of the proof is left out (with
  \<open>cfg.Debug\<close> false it cannot fail); the result is the job identifier, and the
  final status when waited for.
\<close>

definition processTransactionByHash ::
  "nat \<Rightarrow> remote \<Rightarrow> node \<Rightarrow> (string \<Rightarrow> string) \<Rightarrow> string \<Rightarrow> string \<Rightarrow> string \<Rightarrow> int \<Rightarrow> int \<Rightarrow> bool \<Rightarrow> api_state
     \<Rightarrow> (cmd_error + string \<times> ProofStatusResponse option) \<times> api_state" where
  "processTransactionByHash intSize R nd keccak256 txHash logIndex eventSignature maxAttempts interval waitForProof s =
     (case resolve intSize nd keccak256 txHash logIndex eventSignature of
        Inl err \<Rightarrow> (Inl err, s)
      | Inr c \<Rightarrow>
          (case RequestProof R (chainID c) (blockNumber c) (toUint intSize (txIndex c)) (logIdx c) s of
             (Inl err, s') \<Rightarrow> (Inl (RequestProofFailed err), s')
           | (Inr jobID, s') \<Rightarrow>
               if \<not> waitForProof then (Inr (jobID, None), s')
               else
                 (case WaitForProof R jobID maxAttempts interval s' of
                    (Inl err, s'') \<Rightarrow> (Inl (WaitForProofFailed err), s'')
                  | (Inr proofStatus, s'') \<Rightarrow> (Inr (jobID, Some proofStatus), s''))))"

section \<open>Lemmas on the polling loop and on evaluation\<close>

lemma GetProofStatus_valid:
  assumes "ParseFloat jobID = Inr f" and "isFinite f"
  shows "GetProofStatus R jobID s =
           (case queryProofReply R (calls s) f of
              Inl e \<Rightarrow> (Inl (Exchange e), s\<lparr>calls := calls s + 1\<rparr>)
            | Inr r \<Rightarrow> (Inr r, s\<lparr>calls := calls s + 1\<rparr>))"
  using assms by (simp add: GetProofStatus_def)

lemma loop_step_pending:
  assumes "ParseFloat jobID = Inr f" and "isFinite f"
    and "attempt < maxAttempts"
    and "queryProofReply R (calls s) f = Inr r"
    and "Status r = ''pending'' \<or> Status r = ''processing''"
  shows "WaitForProof_loop R jobID maxAttempts interval attempt s =
         WaitForProof_loop R jobID maxAttempts interval (attempt + 1)
           (s\<lparr>calls := calls s + 1, sleeps := sleeps s @ [interval]\<rparr>)"
  using assms
  by (subst WaitForProof_loop.simps) (auto simp: GetProofStatus_valid)

lemma loop_pending_run:
  assumes "ParseFloat jobID = Inr f" and "isFinite f"
    and "\<forall>i<n. \<exists>r. queryProofReply R (calls s + i) f = Inr r \<and> (Status r = ''pending'' \<or> Status r = ''processing'')"
    and "attempt + int n \<le> maxAttempts"
  shows "WaitForProof_loop R jobID maxAttempts interval attempt s =
         WaitForProof_loop R jobID maxAttempts interval (attempt + int n)
           (s\<lparr>calls := calls s + n, sleeps := sleeps s @ replicate n interval\<rparr>)"
  using assms(3,4)
proof (induction n arbitrary: attempt s)
  case 0
  then show ?case by simp
next
  case (Suc n)
  from Suc.prems(1) have "\<exists>r. queryProofReply R (calls s + 0) f = Inr r \<and> (Status r = ''pending'' \<or> Status r = ''processing'')"
    by blast
  then obtain r where r: "queryProofReply R (calls s) f = Inr r"
      "Status r = ''pending'' \<or> Status r = ''processing''"
    by auto
  let ?s = "s\<lparr>calls := calls s + 1, sleeps := sleeps s @ [interval]\<rparr>"
  have lt: "attempt < maxAttempts"
    using Suc.prems(2) by simp
  have step: "WaitForProof_loop R jobID maxAttempts interval attempt s =
              WaitForProof_loop R jobID maxAttempts interval (attempt + 1) ?s"
    by (rule loop_step_pending [OF assms(1,2) lt r])
  have rest: "\<forall>i<n. \<exists>r. queryProofReply R (calls ?s + i) f = Inr r \<and> (Status r = ''pending'' \<or> Status r = ''processing'')"
  proof (intro allI impI)
    fix i assume "i < n"
    then have "Suc i < Suc n" by simp
    with Suc.prems(1) have "\<exists>r. queryProofReply R (calls s + Suc i) f = Inr r \<and> (Status r = ''pending'' \<or> Status r = ''processing'')"
      by blast
    then show "\<exists>r. queryProofReply R (calls ?s + i) f = Inr r \<and> (Status r = ''pending'' \<or> Status r = ''processing'')"
      by simp
  qed
  have le: "attempt + 1 + int n \<le> maxAttempts"
    using Suc.prems(2) by simp
  have "WaitForProof_loop R jobID maxAttempts interval (attempt + 1) ?s =
        WaitForProof_loop R jobID maxAttempts interval (attempt + 1 + int n)
          (?s\<lparr>calls := calls ?s + n, sleeps := sleeps ?s @ replicate n interval\<rparr>)"
    by (rule Suc.IH [OF rest le])
  with step show ?case
    by (simp add: ac_simps)
qed

lemma loop_step_terminal:
  assumes "ParseFloat jobID = Inr f" and "isFinite f"
    and "attempt < maxAttempts"
    and "queryProofReply R (calls s) f = Inr r"
    and "Status r \<noteq> ''pending''" and "Status r \<noteq> ''processing''"
  shows "WaitForProof_loop R jobID maxAttempts interval attempt s =
         (if Status r = ''complete'' \<or> Status r = ''completed'' then Inr r
          else if Status r = ''failed'' then Inl (ProofGenerationFailed (Error r))
          else Inl (UnknownJobStatus (Status r)),
          s\<lparr>calls := calls s + 1\<rparr>)"
  using assms
  by (subst WaitForProof_loop.simps) (auto simp: GetProofStatus_valid)

lemma loop_exhausted:
  "\<not> attempt < maxAttempts \<Longrightarrow>
   WaitForProof_loop R jobID maxAttempts interval attempt s = (Inl (MaxPollingAttempts maxAttempts), s)"
  by (subst WaitForProof_loop.simps) simp

lemma bitlen_0: "bitlen 0 = 0"
  by (simp add: bitlen.simps)

lemma bitlen_pos: "0 < n \<Longrightarrow> bitlen n = Suc (bitlen (n div 2))"
  by (subst bitlen.simps) simp

lemma showNat_small: "n < 10 \<Longrightarrow> showNat n = [digitChar n]"
  by (simp add: showNat.simps)

lemma showNat_large: "10 \<le> n \<Longrightarrow> showNat n = showNat (n div 10) @ [digitChar (n mod 10)]"
  by (subst showNat.simps) simp

lemma special_12345: "special ''12345'' = None"
  by (simp add: special_def)

lemma readFloat_12345: "readFloat ''12345'' = Some (False, False, 12345, 0, 5)"
  by (simp add: readFloat_def readExponent_def isDigit_def byte_def lower_def)

lemma nearestFloat64_12345: "nearestFloat64 False 12345 (Suc 0) = F64 False 6786735522447360 (- 39)"
  by (simp add: nearestFloat64_def scaled_def roundHalfEven_def bitlen_0 bitlen_pos Let_def)

lemma ParseFloat_12345: "ParseFloat ''12345'' = Inr (F64 False 6786735522447360 (- 39))"
  by (simp add: ParseFloat_def special_12345 readFloat_12345 nearestFloat64_12345)

section \<open>The claims on \<open>WaitForProof\<close>\<close>

text \<open>
  C2. When the job identifier parses, the first \<open>n\<close> observations are \<open>pending\<close> or
  \<open>processing\<close>, the next one is \<open>complete\<close> or \<open>completed\<close> and \<open>n < maxAttempts\<close>,
  \<open>WaitForProof\<close> returns that status after exactly \<open>n + 1\<close> observations and
  exactly \<open>n\<close> sleeps of \<open>interval\<close>: one sleep after each non-terminal
  observation, none after the terminal one. The witness is the sequence
  pending, pending, completed with \<open>maxAttempts = 5\<close>: 3 observations, 2 sleeps.
\<close>

theorem WaitForProof_success:
  assumes "ParseFloat jobID = Inr f" and "isFinite f"
    and "\<forall>i<n. \<exists>r. queryProofReply R (calls s + i) f = Inr r \<and> (Status r = ''pending'' \<or> Status r = ''processing'')"
    and "queryProofReply R (calls s + n) f = Inr done"
    and "Status done = ''complete'' \<or> Status done = ''completed''"
    and "int n < maxAttempts"
  shows "WaitForProof R jobID maxAttempts interval s =
         (Inr done, s\<lparr>calls := calls s + n + 1, sleeps := sleeps s @ replicate n interval\<rparr>)"
proof -
  let ?s = "s\<lparr>calls := calls s + n, sleeps := sleeps s @ replicate n interval\<rparr>"
  have "WaitForProof_loop R jobID maxAttempts interval 0 s =
        WaitForProof_loop R jobID maxAttempts interval (0 + int n) ?s"
    using assms(6) by (intro loop_pending_run [OF assms(1,2,3)]) simp
  also have "\<dots> = (Inr done, ?s\<lparr>calls := calls ?s + 1\<rparr>)"
    using assms(4,5,6) by (subst loop_step_terminal [OF assms(1,2), where r = "done"]) auto
  finally show ?thesis
    by (simp add: WaitForProof_def)
qed

theorem WaitForProof_success_witness:
  "WaitForProof
     \<lparr>requestProofReply = (\<lambda>k a b c d. Inl (RequestFailed [])),
      queryProofReply = (\<lambda>k f. Inr \<lparr>Status = (if k < 2 then ''pending'' else ''completed''),
                                      Proof = ''0xabcd'', Error = []\<rparr>)\<rparr>
     ''12345'' 5 3000000000 \<lparr>calls = 0, sleeps = []\<rparr> =
   (Inr \<lparr>Status = ''completed'', Proof = ''0xabcd'', Error = []\<rparr>,
    \<lparr>calls = 3, sleeps = [3000000000, 3000000000]\<rparr>)"
  using WaitForProof_success
    [of "''12345''" "F64 False 6786735522447360 (- 39)" 2
        "\<lparr>requestProofReply = (\<lambda>k a b c d. Inl (RequestFailed [])),
          queryProofReply = (\<lambda>k f. Inr \<lparr>Status = (if k < 2 then ''pending'' else ''completed''),
                                          Proof = ''0xabcd'', Error = []\<rparr>)\<rparr>"
        "\<lparr>calls = 0, sleeps = []\<rparr>"
        "\<lparr>Status = ''completed'', Proof = ''0xabcd'', Error = []\<rparr>" 5 3000000000]
  by (simp add: ParseFloat_12345 numeral_2_eq_2)

text \<open>
  C3. When every one of the \<open>maxAttempts\<close> observations is \<open>pending\<close> or
  \<open>processing\<close>, \<open>WaitForProof\<close> fails with \<open>MaxPollingAttempts maxAttempts\<close> (the
  spec's \<open>PollingTimeoutError\<close>) after exactly \<open>maxAttempts\<close> observations, each
  followed by a sleep, and the text of the error names \<open>maxAttempts\<close>. A
  \<open>maxAttempts\<close> of zero or less gives the error without any observation. The
  witness is \<open>maxAttempts = 3\<close>.
\<close>

theorem WaitForProof_timeout:
  assumes "ParseFloat jobID = Inr f" and "isFinite f"
    and "\<forall>i<nat maxAttempts. \<exists>r. queryProofReply R (calls s + i) f = Inr r \<and> (Status r = ''pending'' \<or> Status r = ''processing'')"
  shows "WaitForProof R jobID maxAttempts interval s =
           (Inl (MaxPollingAttempts maxAttempts),
            s\<lparr>calls := calls s + nat maxAttempts, sleeps := sleeps s @ replicate (nat maxAttempts) interval\<rparr>) \<and>
         api_error_text (MaxPollingAttempts maxAttempts) =
           Some (''max polling attempts ('' @ showInt maxAttempts @ '') reached without completion'')"
proof (cases "0 \<le> maxAttempts")
  case True
  let ?n = "nat maxAttempts"
  let ?s = "s\<lparr>calls := calls s + ?n, sleeps := sleeps s @ replicate ?n interval\<rparr>"
  have "WaitForProof_loop R jobID maxAttempts interval 0 s =
        WaitForProof_loop R jobID maxAttempts interval (0 + int ?n) ?s"
    using True by (intro loop_pending_run [OF assms(1,2,3)]) simp
  also have "\<dots> = (Inl (MaxPollingAttempts maxAttempts), ?s)"
    using True by (intro loop_exhausted) simp
  finally show ?thesis
    by (simp add: WaitForProof_def)
next
  case False
  then have "WaitForProof_loop R jobID maxAttempts interval 0 s = (Inl (MaxPollingAttempts maxAttempts), s)"
    by (intro loop_exhausted) simp
  with False show ?thesis
    by (simp add: WaitForProof_def)
qed

theorem WaitForProof_timeout_witness:
  "WaitForProof
     \<lparr>requestProofReply = (\<lambda>k a b c d. Inl (RequestFailed [])),
      queryProofReply = (\<lambda>k f. Inr \<lparr>Status = ''pending'', Proof = [], Error = []\<rparr>)\<rparr>
     ''12345'' 3 3000000000 \<lparr>calls = 0, sleeps = []\<rparr> =
   (Inl (MaxPollingAttempts 3), \<lparr>calls = 3, sleeps = [3000000000, 3000000000, 3000000000]\<rparr>) \<and>
   api_error_text (MaxPollingAttempts 3) = Some ''max polling attempts (3) reached without completion''"
  using WaitForProof_timeout
    [of "''12345''" "F64 False 6786735522447360 (- 39)" 3
        "\<lparr>requestProofReply = (\<lambda>k a b c d. Inl (RequestFailed [])),
          queryProofReply = (\<lambda>k f. Inr \<lparr>Status = ''pending'', Proof = [], Error = []\<rparr>)\<rparr>"
        "\<lparr>calls = 0, sleeps = []\<rparr>" 3000000000]
  by (simp add: ParseFloat_12345 numeral_3_eq_3 showInt_def showNat_small digitChar_def)

text \<open>
  C4. When the first observation is \<open>failed\<close>, \<open>WaitForProof\<close> returns at once:
  one exchange, no sleep, and the error \<open>ProofGenerationFailed\<close> with the \<open>error\<close>
  field of the status payload in its text.
\<close>

theorem WaitForProof_failed_first:
  assumes "ParseFloat jobID = Inr f" and "isFinite f"
    and "0 < maxAttempts"
    and "queryProofReply R (calls s) f = Inr r"
    and "Status r = ''failed''"
  shows "WaitForProof R jobID maxAttempts interval s =
           (Inl (ProofGenerationFailed (Error r)), s\<lparr>calls := calls s + 1\<rparr>) \<and>
         sleeps (snd (WaitForProof R jobID maxAttempts interval s)) = sleeps s \<and>
         calls (snd (WaitForProof R jobID maxAttempts interval s)) = calls s + 1 \<and>
         api_error_text (ProofGenerationFailed (Error r)) = Some (''proof generation failed: '' @ Error r)"
  using assms(3,4,5)
  by (simp add: WaitForProof_def loop_step_terminal [OF assms(1,2), where r = r])

theorem WaitForProof_failed_first_witness:
  "WaitForProof
     \<lparr>requestProofReply = (\<lambda>k a b c d. Inl (RequestFailed [])),
      queryProofReply = (\<lambda>k f. Inr \<lparr>Status = ''failed'', Proof = [], Error = ''block not finalized''\<rparr>)\<rparr>
     ''12345'' 5 3000000000 \<lparr>calls = 0, sleeps = []\<rparr> =
   (Inl (ProofGenerationFailed ''block not finalized''), \<lparr>calls = 1, sleeps = []\<rparr>) \<and>
   api_error_text (ProofGenerationFailed ''block not finalized'') =
     Some ''proof generation failed: block not finalized''"
  using WaitForProof_failed_first
    [of "''12345''" "F64 False 6786735522447360 (- 39)" 5
        "\<lparr>requestProofReply = (\<lambda>k a b c d. Inl (RequestFailed [])),
          queryProofReply = (\<lambda>k f. Inr \<lparr>Status = ''failed'', Proof = [], Error = ''block not finalized''\<rparr>)\<rparr>"
        "\<lparr>calls = 0, sleeps = []\<rparr>"
        "\<lparr>Status = ''failed'', Proof = [], Error = ''block not finalized''\<rparr>" 3000000000]
  by (simp add: ParseFloat_12345)

text \<open>
  C5. One turn of the loop on an observed status: \<open>complete\<close> and \<open>completed\<close>
  return the status; \<open>failed\<close> is \<open>ProofGenerationFailed\<close>; \<open>pending\<close> and
  \<open>processing\<close> sleep once and go on with the next attempt; any other string is
  \<open>UnknownJobStatus\<close> (the spec's \<open>UnknownStatusError\<close>) with no further exchange.
  The comparison is exact: \<open>Completed\<close> is an unknown status.
\<close>

theorem WaitForProof_status_classes:
  assumes "ParseFloat jobID = Inr f" and "isFinite f"
    and "attempt < maxAttempts"
    and "queryProofReply R (calls s) f = Inr r"
  shows "WaitForProof_loop R jobID maxAttempts interval attempt s =
           (if Status r = ''complete'' \<or> Status r = ''completed'' then
              (Inr r, s\<lparr>calls := calls s + 1\<rparr>)
            else if Status r = ''failed'' then
              (Inl (ProofGenerationFailed (Error r)), s\<lparr>calls := calls s + 1\<rparr>)
            else if Status r = ''pending'' \<or> Status r = ''processing'' then
              WaitForProof_loop R jobID maxAttempts interval (attempt + 1)
                (s\<lparr>calls := calls s + 1, sleeps := sleeps s @ [interval]\<rparr>)
            else (Inl (UnknownJobStatus (Status r)), s\<lparr>calls := calls s + 1\<rparr>))"
proof (cases "Status r = ''pending'' \<or> Status r = ''processing''")
  case True
  then show ?thesis
    using loop_step_pending [OF assms(1,2,3,4)] by auto
next
  case False
  then show ?thesis
    using loop_step_terminal [OF assms(1,2,3,4)] by auto
qed

theorem WaitForProof_status_classes_witness:
  "WaitForProof_loop
     \<lparr>requestProofReply = (\<lambda>k a b c d. Inl (RequestFailed [])),
      queryProofReply = (\<lambda>k f. Inr \<lparr>Status = ''complete'', Proof = ''0xabcd'', Error = []\<rparr>)\<rparr>
     ''12345'' 5 3000000000 0 \<lparr>calls = 0, sleeps = []\<rparr> =
   (Inr \<lparr>Status = ''complete'', Proof = ''0xabcd'', Error = []\<rparr>, \<lparr>calls = 1, sleeps = []\<rparr>) \<and>
   WaitForProof_loop
     \<lparr>requestProofReply = (\<lambda>k a b c d. Inl (RequestFailed [])),
      queryProofReply = (\<lambda>k f. Inr \<lparr>Status = ''Completed'', Proof = ''0xabcd'', Error = []\<rparr>)\<rparr>
     ''12345'' 5 3000000000 0 \<lparr>calls = 0, sleeps = []\<rparr> =
   (Inl (UnknownJobStatus ''Completed''), \<lparr>calls = 1, sleeps = []\<rparr>)"
  using WaitForProof_status_classes
    [of "''12345''" "F64 False 6786735522447360 (- 39)" 0 5
        "\<lparr>requestProofReply = (\<lambda>k a b c d. Inl (RequestFailed [])),
          queryProofReply = (\<lambda>k f. Inr \<lparr>Status = ''complete'', Proof = ''0xabcd'', Error = []\<rparr>)\<rparr>"
        "\<lparr>calls = 0, sleeps = []\<rparr>"
        "\<lparr>Status = ''complete'', Proof = ''0xabcd'', Error = []\<rparr>" 3000000000]
    WaitForProof_status_classes
    [of "''12345''" "F64 False 6786735522447360 (- 39)" 0 5
        "\<lparr>requestProofReply = (\<lambda>k a b c d. Inl (RequestFailed [])),
          queryProofReply = (\<lambda>k f. Inr \<lparr>Status = ''Completed'', Proof = ''0xabcd'', Error = []\<rparr>)\<rparr>"
        "\<lparr>calls = 0, sleeps = []\<rparr>"
        "\<lparr>Status = ''Completed'', Proof = ''0xabcd'', Error = []\<rparr>" 3000000000]
  by (simp add: ParseFloat_12345)

section \<open>Lemmas on hexadecimal and decimal parsing\<close>

lemma toHex_small: "n < 16 \<Longrightarrow> toHex n = [digitChar n]"
  by (simp add: toHex.simps)

lemma toHex_large: "16 \<le> n \<Longrightarrow> toHex n = toHex (n div 16) @ [digitChar (n mod 16)]"
  by (subst toHex.simps) simp

lemma less_16_cases:
  "d < 16 \<Longrightarrow> d = 0 \<or> d = 1 \<or> d = 2 \<or> d = 3 \<or> d = 4 \<or> d = 5 \<or> d = 6 \<or> d = 7 \<or> d = 8 \<or> d = 9 \<or>
     d = 10 \<or> d = 11 \<or> d = 12 \<or> d = 13 \<or> d = 14 \<or> d = (15::nat)"
  by arith

lemma digitOf_digitChar: "d < 16 \<Longrightarrow> digitOf (digitChar d) = Some d"
  by (drule less_16_cases) (auto simp: digitOf_def digitChar_def isDigit_def byte_def lower_def)

lemma scanDigits_append:
  "scanDigits base acc (xs @ ys) =
     (case scanDigits base acc xs of None \<Rightarrow> None | Some a \<Rightarrow> scanDigits base a ys)"
  by (induction xs arbitrary: acc) (auto split: option.splits)

lemma scanDigits_toHex: "scanDigits 16 0 (toHex n) = Some n"
proof (induction n rule: toHex.induct)
  case (1 n)
  show ?case
  proof (cases "n < 16")
    case True
    then show ?thesis
      by (simp add: toHex_small digitOf_digitChar)
  next
    case False
    then have "scanDigits 16 0 (toHex (n div 16)) = Some (n div 16)"
      using "1.IH" by simp
    with False show ?thesis
      by (simp add: toHex_large scanDigits_append digitOf_digitChar)
  qed
qed

lemma toHex_nonempty: "toHex n \<noteq> []"
  by (subst toHex.simps) simp

lemma natScan_toHex: "natScan (toHex n) 16 = Some n"
  by (simp add: natScan_def toHex_nonempty scanDigits_toHex)

lemma natScan_SetString:
  assumes "natScan s base = Some v"
  shows "SetString s base = Some (int v)"
proof (cases s)
  case Nil
  with assms show ?thesis by (simp add: natScan_def)
next
  case (Cons c cs)
  with assms have "digitOf c \<noteq> None"
    by (auto simp: natScan_def split: option.splits)
  then have "c \<noteq> CHR ''-''" and "c \<noteq> CHR ''+''"
    by (auto simp: digitOf_def isDigit_def byte_def lower_def)
  with assms Cons show ?thesis
    by (simp add: SetString_def)
qed

lemma HexToUint64_digits:
  assumes "natScan s 16 = Some v"
  shows "HexToUint64 (CHR ''0'' # CHR ''x'' # s) = (if v < 2 ^ 64 then Inr (of_nat v) else Inl (HexTooLarge s))"
proof (cases "s = ''0''")
  case True
  with assms have "v = 0"
    by (simp add: natScan_def digitOf_def isDigit_def byte_def)
  with True show ?thesis
    by (simp add: HexToUint64_def)
next
  case False
  then show ?thesis
    using natScan_SetString [OF assms]
    by (simp add: HexToUint64_def IsUint64_def)
qed

section \<open>The claim on \<open>HexToUint64\<close>\<close>

text \<open>
  C8. \<open>HexToUint64\<close> gives back every value below \<open>2 ^ 64\<close> from \<open>0x\<close> and its
  hexadecimal digits; a number of \<open>2 ^ 64\<close> or more fails with \<open>HexTooLarge\<close> (the
  spec's \<open>OverflowError\<close>), for its shortest lower-case digits and for any other
  string of hexadecimal digits \<open>big.Int\<close> reads it from; and \<open>0x0\<close> is 0.
\<close>

theorem HexToUint64_roundtrip:
  "(n < 2 ^ 64 \<longrightarrow> HexToUint64 (''0x'' @ toHex n) = Inr (of_nat n) \<and> unat (of_nat n :: 64 word) = n) \<and>
   (2 ^ 64 \<le> n \<longrightarrow> HexToUint64 (''0x'' @ toHex n) = Inl (HexTooLarge (toHex n))) \<and>
   (\<forall>s v. natScan s 16 = Some v \<and> 2 ^ 64 \<le> v \<longrightarrow> HexToUint64 (''0x'' @ s) = Inl (HexTooLarge s)) \<and>
   HexToUint64 ''0x0'' = Inr 0"
proof -
  have "HexToUint64 ''0x0'' = Inr 0"
    by (simp add: HexToUint64_def)
  moreover have "n < 2 ^ 64 \<Longrightarrow> unat (of_nat n :: 64 word) = n"
    by (simp add: unat_of_nat take_bit_nat_eq_self)
  ultimately show ?thesis
    by (auto simp: HexToUint64_digits natScan_toHex)
qed

theorem HexToUint64_roundtrip_witness:
  "HexToUint64 ''0xffffffffffffffff'' = Inr 18446744073709551615 \<and>
   HexToUint64 ''0x10000000000000000'' = Inl (HexTooLarge ''10000000000000000'')"
  using HexToUint64_roundtrip [of 18446744073709551615] HexToUint64_roundtrip [of 18446744073709551616]
  by (simp add: toHex_small toHex_large digitChar_def)

section \<open>Lemmas on the resolution of a transaction hash\<close>

lemma ParseUint_loop_append:
  "ParseUint_loop base cutoff maxVal n (xs @ ys) =
     (case ParseUint_loop base cutoff maxVal n xs of
        Inl e \<Rightarrow> Inl e
      | Inr m \<Rightarrow> ParseUint_loop base cutoff maxVal m ys)"
  by (induction xs arbitrary: n) (auto split: option.splits simp: Let_def)

lemma unat_of_nat64: "m < 2 ^ 64 \<Longrightarrow> unat (of_nat m :: 64 word) = m"
  by (simp add: unat_of_nat take_bit_nat_eq_self)

lemma ParseUint_step:
  assumes "m < 2 ^ 32" and "d < 10"
  shows "ParseUint_loop 10 1844674407370955162 4294967295 (of_nat m) [digitChar d] =
           (if m * 10 + d \<le> 4294967295 then Inr (of_nat (m * 10 + d)) else Inl ErrRange)"
proof -
  have d: "digitOf (digitChar d) = Some d"
    using assms(2) by (simp add: digitOf_digitChar)
  have u1: "unat (of_nat d :: 64 word) = d"
    using assms(2) by (simp add: unat_of_nat64)
  have u2: "unat (of_nat m :: 64 word) = m"
    using assms(1) by (simp add: unat_of_nat64)
  have u3: "unat (of_nat m * 10 :: 64 word) = m * 10"
    using assms(1) unat_of_nat64 [of "m * 10"] by simp
  have u4: "unat (of_nat m * 10 + of_nat d :: 64 word) = m * 10 + d"
    using assms unat_of_nat64 [of "m * 10 + d"] by simp
  have c1: "\<not> (10 :: 64 word) \<le> of_nat d"
    using assms(2) by (simp add: word_le_nat_alt u1)
  have c2: "\<not> (1844674407370955162 :: 64 word) \<le> of_nat m"
    using assms(1) by (simp add: word_le_nat_alt u2)
  have c3: "\<not> (of_nat m * 10 + of_nat d :: 64 word) < of_nat m * 10"
    by (simp add: word_less_nat_alt u3 u4)
  have c4: "(4294967295 :: 64 word) < of_nat m * 10 + of_nat d \<longleftrightarrow> \<not> m * 10 + d \<le> 4294967295"
    by (simp add: word_less_nat_alt u4 not_le)
  show ?thesis
    using c1 c2 c3 c4 by (simp add: d Let_def)
qed

lemma showNat_nonempty: "showNat n \<noteq> []"
  by (subst showNat.simps) simp

lemma ParseUint_loop_showNat:
  "ParseUint_loop 10 1844674407370955162 4294967295 0 (showNat i) =
     (if i < 2 ^ 32 then Inr (of_nat i) else Inl ErrRange)"
proof (induction i rule: showNat.induct)
  case (1 i)
  show ?case
  proof (cases "i < 10")
    case True
    then show ?thesis
      using ParseUint_step [of 0 i] by (simp add: showNat_small)
  next
    case False
    then have IH: "ParseUint_loop 10 1844674407370955162 4294967295 0 (showNat (i div 10)) =
                     (if i div 10 < 2 ^ 32 then Inr (of_nat (i div 10)) else Inl ErrRange)"
      using "1.IH" by simp
    have eq: "showNat i = showNat (i div 10) @ [digitChar (i mod 10)]"
      using False by (intro showNat_large) simp
    show ?thesis
    proof (cases "i div 10 < 2 ^ 32")
      case True
      have "(i div 10) * 10 + i mod 10 = i" by simp
      with True show ?thesis
        using ParseUint_step [of "i div 10" "i mod 10"]
        by (simp add: eq ParseUint_loop_append IH)
    next
      case f: False
      then have "\<not> i < 2 ^ 32" by simp
      with f show ?thesis
        by (simp add: eq ParseUint_loop_append IH)
    qed
  qed
qed

lemma ParseUint_showNat:
  "ParseUint (showNat i) 10 32 = (if i < 2 ^ 32 then Inr (of_nat i) else Inl ErrRange)"
  using ParseUint_loop_showNat [of i] by (simp add: ParseUint_def showNat_nonempty)

lemma toInt_of_nat:
  assumes "intSize = 32 \<or> intSize = 64" and "i < 2 ^ 32" and "i < 2 ^ (intSize - 1)"
  shows "toInt intSize (of_nat i) = int i"
proof -
  have "i < 2 ^ 64"
    using assms(2) by (rule less_trans) simp
  then have u: "uint (of_nat i :: 64 word) = int i"
    using unat_of_nat64 [of i] by (simp add: uint_nat)
  have "int i < 2 ^ (intSize - 1)"
    using assms(3) by (metis of_nat_less_iff of_nat_numeral of_nat_power)
  moreover have "- (2 ^ (intSize - 1)) \<le> int i"
    by (rule order_trans [of _ 0]) simp_all
  ultimately have "signed_take_bit (intSize - 1) (int i) = int i"
    by (intro signed_take_bit_int_eq_self)
  then show ?thesis
    by (simp add: toInt_def u)
qed

lemma toUint_of_nat:
  assumes "intSize = 32 \<or> intSize = 64" and "i < 2 ^ 32"
  shows "toUint intSize (of_nat i) = of_nat i"
proof -
  have "take_bit 32 i = i"
    using assms(2) by (simp add: take_bit_nat_eq_self)
  then have "take_bit 32 (of_nat i :: 64 word) = of_nat i"
    by (metis of_nat_take_bit)
  moreover have "take_bit 64 (of_nat i :: 64 word) = of_nat i"
    by (rule take_bit_length_eq [where 'a = 64, simplified])
  ultimately show ?thesis
    using assms(1) by (auto simp: toUint_def)
qed

lemma determineLog_empty: "determineLog intSize keccak logIndex eventSignature [] = Inl NoLogsFound"
  by (simp add: determineLog_def)

lemma determineLog_explicit:
  assumes "logs \<noteq> []" and "intSize = 32 \<or> intSize = 64"
    and "i < 2 ^ 32" and "i < 2 ^ (intSize - 1)"
  shows "determineLog intSize keccak (showNat i) eventSignature logs =
           (if i < length logs then Inr (of_nat i)
            else Inl (LogIndexOutOfRange (of_nat i) (int (length logs))))"
  using assms(1,3)
  by (auto simp: determineLog_def ParseUint_showNat showNat_nonempty
        toInt_of_nat [OF assms(2,3,4)] toUint_of_nat [OF assms(2,3)])

text \<open>
  Where \<open>int\<close> is 32 bits wide, an index from \<open>2 ^ 31\<close> on is negative as
  \<open>int(logIdxParsed)\<close>: it passes the range check of line 196 and is the
  selected log index, whatever the number of logs.
\<close>

lemma determineLog_int32_wraps:
  "determineLog 32 keccak ''2147483648'' eventSignature [l] = Inr 2147483648"
  by (simp add: determineLog_def ParseUint_def digitOf_def isDigit_def byte_def lower_def
        toInt_def toUint_def word_le_nat_alt word_less_nat_alt)

lemma determineLog_too_wide:
  assumes "logs \<noteq> []" and "2 ^ 32 \<le> i"
  shows "determineLog intSize keccak (showNat i) eventSignature logs = Inl (InvalidLogIndex (showNat i) ErrRange)"
  using assms by (simp add: determineLog_def ParseUint_showNat showNat_nonempty)

lemma findLog_none:
  assumes "\<forall>l \<in> set logs. \<not> (log_Topics l \<noteq> [] \<and> EqualFold (log_Topics l ! 0) (''0x'' @ EncodeToString (keccak sig)))"
  shows "findLog keccak sig i0 logs = Inr None"
  using assms
  by (induction logs arbitrary: i0) (auto simp: GetEventSignatureHash_def)

lemma findLog_first:
  assumes "j < length logs"
    and "log_Topics (logs ! j) \<noteq> []"
    and "EqualFold (log_Topics (logs ! j) ! 0) (''0x'' @ EncodeToString (keccak sig))"
    and "\<forall>j'<j. \<not> (log_Topics (logs ! j') \<noteq> [] \<and> EqualFold (log_Topics (logs ! j') ! 0) (''0x'' @ EncodeToString (keccak sig)))"
  shows "findLog keccak sig i0 logs = Inr (Some (i0 + j))"
  using assms
proof (induction logs arbitrary: i0 j)
  case Nil
  then show ?case by simp
next
  case (Cons l logs)
  show ?case
  proof (cases j)
    case 0
    with Cons.prems show ?thesis
      by (simp add: GetEventSignatureHash_def)
  next
    case (Suc j0)
    have head: "\<not> (log_Topics l \<noteq> [] \<and> EqualFold (log_Topics l ! 0) (''0x'' @ EncodeToString (keccak sig)))"
      using Cons.prems(4) Suc by (metis nth_Cons_0 zero_less_Suc)
    have tail: "findLog keccak sig (i0 + 1) logs = Inr (Some (i0 + 1 + j0))"
    proof (rule Cons.IH)
      show "j0 < length logs" using Cons.prems(1) Suc by simp
      show "log_Topics (logs ! j0) \<noteq> []" using Cons.prems(2) Suc by simp
      show "EqualFold (log_Topics (logs ! j0) ! 0) (''0x'' @ EncodeToString (keccak sig))"
        using Cons.prems(3) Suc by simp
      show "\<forall>j'<j0. \<not> (log_Topics (logs ! j') \<noteq> [] \<and> EqualFold (log_Topics (logs ! j') ! 0) (''0x'' @ EncodeToString (keccak sig)))"
      proof (intro allI impI)
        fix j' assume "j' < j0"
        then have "Suc j' < j" using Suc by simp
        with Cons.prems(4) show "\<not> (log_Topics (logs ! j') \<noteq> [] \<and> EqualFold (log_Topics (logs ! j') ! 0) (''0x'' @ EncodeToString (keccak sig)))"
          by (metis nth_Cons_Suc)
      qed
    qed
    from head tail Suc show ?thesis
      by (auto simp: GetEventSignatureHash_def)
  qed
qed

lemma determineLog_negative:
  assumes "logs \<noteq> []"
  shows "determineLog intSize keccak (CHR ''-'' # ds) eventSignature logs = Inl (InvalidLogIndex (CHR ''-'' # ds) ErrSyntax)"
  using assms by (simp add: determineLog_def ParseUint_def digitOf_def isDigit_def byte_def lower_def)

lemma resolve_header:
  assumes "GetTransaction nd txHash = Inr tx"
    and "GetTransactionReceipt nd txHash = Inr receipt"
    and "HexToUint64 (receipt_BlockNumber receipt) = Inr blockNum"
    and "HexToUint64 (receipt_TransactionIndex receipt) = Inr txIdx"
    and "tx_ChainID tx \<noteq> []"
    and "HexToUint64 (tx_ChainID tx) = Inr chainIDUint"
  shows "resolve intSize nd keccak txHash logIndex eventSignature =
           (case determineLog intSize keccak logIndex eventSignature (receipt_Logs receipt) of
              Inl err \<Rightarrow> Inl err
            | Inr i \<Rightarrow> Inr \<lparr>chainID = chainIDUint, blockNumber = blockNum, txIndex = txIdx, logIdx = i\<rparr>)"
  using assms by (simp add: resolve_def)

lemma trimLeft_stop: "s = [] \<or> leadingSpace encs s = 0 \<Longrightarrow> trimLeft encs s = s"
  by (subst trimLeft.simps) simp

lemma trimLeft_step:
  "s \<noteq> [] \<Longrightarrow> leadingSpace encs s \<noteq> 0 \<Longrightarrow> trimLeft encs s = trimLeft encs (drop (leadingSpace encs s) s)"
  by (subst trimLeft.simps) simp

lemma TrimSpace_example: "TrimSpace '' Transfer(address,address,uint256) '' = ''Transfer(address,address,uint256)''"
  by (simp add: TrimSpace_def trimLeft_stop trimLeft_step leadingSpace_def HasPrefix_def spaceEncodings_def)

lemma TrimSpace_example_plain: "TrimSpace ''Transfer(address,address,uint256)'' = ''Transfer(address,address,uint256)''"
  by (simp add: TrimSpace_def trimLeft_stop trimLeft_step leadingSpace_def HasPrefix_def spaceEncodings_def)

lemma GetEventSignatureHash_example:
  "GetEventSignatureHash
     (\<lambda>s. if s = ''Transfer(address,address,uint256)''
          then [CHR 0xdd, CHR 0xf2, CHR 0x52, CHR 0xad, CHR 0x1b, CHR 0xe2, CHR 0xc8, CHR 0x9b, CHR 0x69, CHR 0xc2, CHR 0xb0, CHR 0x68, CHR 0xfc, CHR 0x37, CHR 0x8d, CHR 0xaa, CHR 0x95, CHR 0x2b, CHR 0xa7, CHR 0xf1, CHR 0x63,
               CHR 0xc4, CHR 0xa1, CHR 0x16, CHR 0x28, CHR 0xf5, CHR 0x5a, CHR 0x4d, CHR 0xf5, CHR 0x23, CHR 0xb3, CHR 0xef]
          else [])
     ''Transfer(address,address,uint256)'' = Inr ''0xddf252ad1be2c89b69c2b068fc378daa952ba7f163c4a11628f55a4df523b3ef''"
  by (simp add: GetEventSignatureHash_def EncodeToString_def byte_def digitChar_def)

section \<open>The claims on the resolution of a transaction hash\<close>

text \<open>
  C1, as amended. With a receipt of zero logs the resolution always fails. It
  fails with \<open>NoLogsFound\<close> (the spec's \<open>NoLogsError\<close>), and no proof is
  requested, whenever the transaction is fetched, the block number and the
  transaction index of the receipt parse, and the chain ID of the transaction
  is present and parses: whatever the log index and the event signature. The
  source reads these fields before it looks at the logs, so that their errors
  come first.
\<close>

theorem resolve_no_logs:
  assumes "GetTransactionReceipt nd txHash = Inr receipt"
    and "receipt_Logs receipt = []"
  shows "(\<exists>err. resolve intSize nd keccak txHash logIndex eventSignature = Inl err) \<and>
         (\<forall>tx blockNum txIdx chainIDUint.
            GetTransaction nd txHash = Inr tx \<and>
            HexToUint64 (receipt_BlockNumber receipt) = Inr blockNum \<and>
            HexToUint64 (receipt_TransactionIndex receipt) = Inr txIdx \<and>
            tx_ChainID tx \<noteq> [] \<and> HexToUint64 (tx_ChainID tx) = Inr chainIDUint \<longrightarrow>
            resolve intSize nd keccak txHash logIndex eventSignature = Inl NoLogsFound \<and>
            processTransactionByHash intSize R nd keccak txHash logIndex eventSignature maxAttempts interval waitForProof s =
              (Inl NoLogsFound, s))"
proof -
  have fails: "\<exists>err. resolve intSize nd keccak txHash logIndex eventSignature = Inl err"
    using assms by (auto simp: resolve_def determineLog_empty split: sum.splits)
  have nologs: "resolve intSize nd keccak txHash logIndex eventSignature = Inl NoLogsFound"
    if "GetTransaction nd txHash = Inr tx"
      and "HexToUint64 (receipt_BlockNumber receipt) = Inr blockNum"
      and "HexToUint64 (receipt_TransactionIndex receipt) = Inr txIdx"
      and "tx_ChainID tx \<noteq> []" and "HexToUint64 (tx_ChainID tx) = Inr chainIDUint"
    for tx blockNum txIdx chainIDUint
    using that assms by (simp add: resolve_def determineLog_empty)
  have "processTransactionByHash intSize R nd keccak txHash logIndex eventSignature maxAttempts interval waitForProof s =
          (Inl NoLogsFound, s)"
    if "resolve intSize nd keccak txHash logIndex eventSignature = Inl NoLogsFound"
    using that by (simp add: processTransactionByHash_def)
  with fails nologs show ?thesis
    by blast
qed

theorem resolve_no_logs_witness:
  "resolve 64
     \<lparr>eth_getTransactionByHash = (\<lambda>h. Inr
            \<lparr>tx_Hash = h, tx_BlockNumber = ''0x10'', tx_BlockHash = [], tx_From = [],
             tx_To = [], tx_ChainID = ''0x1''\<rparr>),
      eth_getTransactionReceipt = (\<lambda>h. Inr
            \<lparr>receipt_TransactionHash = h, receipt_TransactionIndex = ''0x5'',
             receipt_BlockNumber = ''0x10'', receipt_BlockHash = [], receipt_Status = ''0x1'',
             receipt_Logs = []\<rparr>)\<rparr>
     (\<lambda>s. s) ''0xabc'' ''0'' ''Transfer(address,address,uint256)'' = Inl NoLogsFound"
  using resolve_no_logs
    [where intSize = 64 and nd = "\<lparr>eth_getTransactionByHash = (\<lambda>h. Inr
            \<lparr>tx_Hash = h, tx_BlockNumber = ''0x10'', tx_BlockHash = [], tx_From = [],
             tx_To = [], tx_ChainID = ''0x1''\<rparr>),
      eth_getTransactionReceipt = (\<lambda>h. Inr
            \<lparr>receipt_TransactionHash = h, receipt_TransactionIndex = ''0x5'',
             receipt_BlockNumber = ''0x10'', receipt_BlockHash = [], receipt_Status = ''0x1'',
             receipt_Logs = []\<rparr>)\<rparr>"
       and txHash = "''0xabc''"
       and receipt = "\<lparr>receipt_TransactionHash = ''0xabc'', receipt_TransactionIndex = ''0x5'',
             receipt_BlockNumber = ''0x10'', receipt_BlockHash = [], receipt_Status = ''0x1'',
             receipt_Logs = []\<rparr>"
       and keccak = "(\<lambda>s. s)"
       and logIndex = "''0''"
       and eventSignature = "''Transfer(address,address,uint256)''"]
  by (simp add: GetTransaction_def GetTransactionReceipt_def HasPrefix_def HexToUint64_def SetString_def natScan_def digitOf_def isDigit_def byte_def lower_def IsUint64_def)

text \<open>
  C1 as stated fails: a receipt of zero logs for a transaction without a chain
  ID gives \<open>ChainIDNotFound\<close> (the spec's \<open>MissingChainIDError\<close>), not
  \<open>NoLogsFound\<close>.
\<close>

theorem resolve_no_logs_counterexample:
  "resolve 64
     \<lparr>eth_getTransactionByHash = (\<lambda>h. Inr
            \<lparr>tx_Hash = h, tx_BlockNumber = ''0x10'', tx_BlockHash = [], tx_From = [],
             tx_To = [], tx_ChainID = []\<rparr>),
      eth_getTransactionReceipt = (\<lambda>h. Inr
            \<lparr>receipt_TransactionHash = h, receipt_TransactionIndex = ''0x5'',
             receipt_BlockNumber = ''0x10'', receipt_BlockHash = [], receipt_Status = ''0x1'',
             receipt_Logs = []\<rparr>)\<rparr>
     (\<lambda>s. s) ''0xabc'' [] [] = Inl ChainIDNotFound"
  by (simp add: resolve_def GetTransaction_def GetTransactionReceipt_def HasPrefix_def HexToUint64_def SetString_def natScan_def digitOf_def isDigit_def byte_def lower_def IsUint64_def)

text \<open>
  C6, as amended. When the fields before the logs are read without error and
  the receipt has \<open>k > 0\<close> logs, the explicit log index \<open>i\<close>, written in decimal
  and below \<open>2 ^ 32\<close> and below \<open>2 ^ (intSize - 1)\<close> (so below \<open>2 ^ 32\<close> where \<open>int\<close>
  is 64 bits wide, below \<open>2 ^ 31\<close> where it is 32), resolves to the coordinates
  with log index \<open>i\<close> iff \<open>i < k\<close>, and otherwise the error is
  \<open>LogIndexOutOfRange\<close> (the spec's \<open>IndexOutOfRangeError\<close>), whose text has \<open>i\<close> and
  \<open>k\<close>. From \<open>2 ^ 32\<close> on the index is refused by
  \<open>strconv.ParseUint(logIndex, 10, 32)\<close> before any comparison with \<open>k\<close>, and so
  is a negative index, for its sign.
\<close>

theorem resolve_explicit_index:
  assumes "GetTransaction nd txHash = Inr tx"
    and "GetTransactionReceipt nd txHash = Inr receipt"
    and "HexToUint64 (receipt_BlockNumber receipt) = Inr blockNum"
    and "HexToUint64 (receipt_TransactionIndex receipt) = Inr txIdx"
    and "tx_ChainID tx \<noteq> []"
    and "HexToUint64 (tx_ChainID tx) = Inr chainIDUint"
    and "receipt_Logs receipt \<noteq> []"
    and "intSize = 32 \<or> intSize = 64"
  shows "(i < 2 ^ 32 \<and> i < 2 ^ (intSize - 1) \<longrightarrow>
            resolve intSize nd keccak txHash (showNat i) eventSignature =
              (if i < length (receipt_Logs receipt) then
                 Inr \<lparr>chainID = chainIDUint, blockNumber = blockNum, txIndex = txIdx, logIdx = of_nat i\<rparr>
               else Inl (LogIndexOutOfRange (of_nat i) (int (length (receipt_Logs receipt)))))) \<and>
         (i < 2 ^ 32 \<longrightarrow>
            cmd_error_text (LogIndexOutOfRange (of_nat i) (int (length (receipt_Logs receipt)))) =
              Some (''log index '' @ showNat i @ '' is out of range, transaction has '' @
                    showNat (length (receipt_Logs receipt)) @ '' logs'')) \<and>
         (2 ^ 32 \<le> i \<longrightarrow>
            resolve intSize nd keccak txHash (showNat i) eventSignature =
              Inl (InvalidLogIndex (showNat i) ErrRange)) \<and>
         resolve intSize nd keccak txHash (CHR ''-'' # showNat i) eventSignature =
           Inl (InvalidLogIndex (CHR ''-'' # showNat i) ErrSyntax)"
proof -
  have u: "i < 2 ^ 32 \<Longrightarrow> unat (of_nat i :: 64 word) = i"
    by (intro unat_of_nat64) simp
  have sel: "determineLog intSize keccak (showNat i) eventSignature (receipt_Logs receipt) =
           (if i < length (receipt_Logs receipt) then Inr (of_nat i)
            else Inl (LogIndexOutOfRange (of_nat i) (int (length (receipt_Logs receipt)))))"
    if "i < 2 ^ 32" and "i < 2 ^ (intSize - 1)"
    using that by (intro determineLog_explicit [OF assms(7,8)])
  show ?thesis
    using assms(7) u sel
    by (simp add: resolve_header [OF assms(1-6)] determineLog_too_wide determineLog_negative showInt_def)
qed

theorem resolve_explicit_index_witness:
  "resolve 64
     \<lparr>eth_getTransactionByHash = (\<lambda>h. Inr
            \<lparr>tx_Hash = h, tx_BlockNumber = ''0x10'', tx_BlockHash = [], tx_From = [],
             tx_To = [], tx_ChainID = ''0x1''\<rparr>),
      eth_getTransactionReceipt = (\<lambda>h. Inr
            \<lparr>receipt_TransactionHash = h, receipt_TransactionIndex = ''0x5'',
             receipt_BlockNumber = ''0x10'', receipt_BlockHash = [], receipt_Status = ''0x1'',
             receipt_Logs = [\<lparr>log_LogIndex = [], log_TransactionIndex = [], log_TransactionHash = [],
                 log_BlockHash = [], log_BlockNumber = [], log_Address = [], log_Data = [],
                 log_Topics = []\<rparr>,
               \<lparr>log_LogIndex = [], log_TransactionIndex = [], log_TransactionHash = [],
                 log_BlockHash = [], log_BlockNumber = [], log_Address = [], log_Data = [],
                 log_Topics = []\<rparr>]\<rparr>)\<rparr>
     (\<lambda>s. s) ''0xabc'' ''1'' [] = Inr \<lparr>chainID = 1, blockNumber = 16, txIndex = 5, logIdx = 1\<rparr> \<and>
   resolve 32
     \<lparr>eth_getTransactionByHash = (\<lambda>h. Inr
            \<lparr>tx_Hash = h, tx_BlockNumber = ''0x10'', tx_BlockHash = [], tx_From = [],
             tx_To = [], tx_ChainID = ''0x1''\<rparr>),
      eth_getTransactionReceipt = (\<lambda>h. Inr
            \<lparr>receipt_TransactionHash = h, receipt_TransactionIndex = ''0x5'',
             receipt_BlockNumber = ''0x10'', receipt_BlockHash = [], receipt_Status = ''0x1'',
             receipt_Logs = [\<lparr>log_LogIndex = [], log_TransactionIndex = [], log_TransactionHash = [],
                 log_BlockHash = [], log_BlockNumber = [], log_Address = [], log_Data = [],
                 log_Topics = []\<rparr>,
               \<lparr>log_LogIndex = [], log_TransactionIndex = [], log_TransactionHash = [],
                 log_BlockHash = [], log_BlockNumber = [], log_Address = [], log_Data = [],
                 log_Topics = []\<rparr>]\<rparr>)\<rparr>
     (\<lambda>s. s) ''0xabc'' ''5'' [] = Inl (LogIndexOutOfRange 5 2) \<and>
   cmd_error_text (LogIndexOutOfRange 5 2) = Some ''log index 5 is out of range, transaction has 2 logs''"
  using resolve_explicit_index
    [where intSize = 64 and nd = "\<lparr>eth_getTransactionByHash = (\<lambda>h. Inr
            \<lparr>tx_Hash = h, tx_BlockNumber = ''0x10'', tx_BlockHash = [], tx_From = [],
             tx_To = [], tx_ChainID = ''0x1''\<rparr>),
      eth_getTransactionReceipt = (\<lambda>h. Inr
            \<lparr>receipt_TransactionHash = h, receipt_TransactionIndex = ''0x5'',
             receipt_BlockNumber = ''0x10'', receipt_BlockHash = [], receipt_Status = ''0x1'',
             receipt_Logs = [\<lparr>log_LogIndex = [], log_TransactionIndex = [], log_TransactionHash = [],
                 log_BlockHash = [], log_BlockNumber = [], log_Address = [], log_Data = [],
                 log_Topics = []\<rparr>,
               \<lparr>log_LogIndex = [], log_TransactionIndex = [], log_TransactionHash = [],
                 log_BlockHash = [], log_BlockNumber = [], log_Address = [], log_Data = [],
                 log_Topics = []\<rparr>]\<rparr>)\<rparr>"
       and txHash = "''0xabc''"
       and tx = "\<lparr>tx_Hash = ''0xabc'', tx_BlockNumber = ''0x10'', tx_BlockHash = [], tx_From = [],
             tx_To = [], tx_ChainID = ''0x1''\<rparr>"
       and receipt = "\<lparr>receipt_TransactionHash = ''0xabc'', receipt_TransactionIndex = ''0x5'',
             receipt_BlockNumber = ''0x10'', receipt_BlockHash = [], receipt_Status = ''0x1'',
             receipt_Logs = [\<lparr>log_LogIndex = [], log_TransactionIndex = [], log_TransactionHash = [],
                 log_BlockHash = [], log_BlockNumber = [], log_Address = [], log_Data = [],
                 log_Topics = []\<rparr>,
               \<lparr>log_LogIndex = [], log_TransactionIndex = [], log_TransactionHash = [],
                 log_BlockHash = [], log_BlockNumber = [], log_Address = [], log_Data = [],
                 log_Topics = []\<rparr>]\<rparr>"
       and blockNum = "16"
       and txIdx = "5"
       and chainIDUint = "1"
       and i = "1"
       and keccak = "(\<lambda>s. s)"
       and eventSignature = "[]"]
    resolve_explicit_index
    [where intSize = 32 and nd = "\<lparr>eth_getTransactionByHash = (\<lambda>h. Inr
            \<lparr>tx_Hash = h, tx_BlockNumber = ''0x10'', tx_BlockHash = [], tx_From = [],
             tx_To = [], tx_ChainID = ''0x1''\<rparr>),
      eth_getTransactionReceipt = (\<lambda>h. Inr
            \<lparr>receipt_TransactionHash = h, receipt_TransactionIndex = ''0x5'',
             receipt_BlockNumber = ''0x10'', receipt_BlockHash = [], receipt_Status = ''0x1'',
             receipt_Logs = [\<lparr>log_LogIndex = [], log_TransactionIndex = [], log_TransactionHash = [],
                 log_BlockHash = [], log_BlockNumber = [], log_Address = [], log_Data = [],
                 log_Topics = []\<rparr>,
               \<lparr>log_LogIndex = [], log_TransactionIndex = [], log_TransactionHash = [],
                 log_BlockHash = [], log_BlockNumber = [], log_Address = [], log_Data = [],
                 log_Topics = []\<rparr>]\<rparr>)\<rparr>"
       and txHash = "''0xabc''"
       and tx = "\<lparr>tx_Hash = ''0xabc'', tx_BlockNumber = ''0x10'', tx_BlockHash = [], tx_From = [],
             tx_To = [], tx_ChainID = ''0x1''\<rparr>"
       and receipt = "\<lparr>receipt_TransactionHash = ''0xabc'', receipt_TransactionIndex = ''0x5'',
             receipt_BlockNumber = ''0x10'', receipt_BlockHash = [], receipt_Status = ''0x1'',
             receipt_Logs = [\<lparr>log_LogIndex = [], log_TransactionIndex = [], log_TransactionHash = [],
                 log_BlockHash = [], log_BlockNumber = [], log_Address = [], log_Data = [],
                 log_Topics = []\<rparr>,
               \<lparr>log_LogIndex = [], log_TransactionIndex = [], log_TransactionHash = [],
                 log_BlockHash = [], log_BlockNumber = [], log_Address = [], log_Data = [],
                 log_Topics = []\<rparr>]\<rparr>"
       and blockNum = "16"
       and txIdx = "5"
       and chainIDUint = "1"
       and i = "5"
       and keccak = "(\<lambda>s. s)"
       and eventSignature = "[]"]
  by (simp add: GetTransaction_def GetTransactionReceipt_def HasPrefix_def HexToUint64_def SetString_def natScan_def digitOf_def isDigit_def byte_def lower_def IsUint64_def showNat_small digitChar_def)

text \<open>
  C6 as stated fails: the index 4294967296 on a receipt of one log is not an
  \<open>IndexOutOfRangeError\<close> but a parse error that does not cite the log count;
  and the index 5 on a receipt of two logs gives \<open>ChainIDNotFound\<close> when the
  transaction has no chain ID.
\<close>

theorem resolve_explicit_index_counterexample:
  "resolve 64
     \<lparr>eth_getTransactionByHash = (\<lambda>h. Inr
            \<lparr>tx_Hash = h, tx_BlockNumber = ''0x10'', tx_BlockHash = [], tx_From = [],
             tx_To = [], tx_ChainID = ''0x1''\<rparr>),
      eth_getTransactionReceipt = (\<lambda>h. Inr
            \<lparr>receipt_TransactionHash = h, receipt_TransactionIndex = ''0x5'',
             receipt_BlockNumber = ''0x10'', receipt_BlockHash = [], receipt_Status = ''0x1'',
             receipt_Logs = [\<lparr>log_LogIndex = [], log_TransactionIndex = [], log_TransactionHash = [],
                 log_BlockHash = [], log_BlockNumber = [], log_Address = [], log_Data = [],
                 log_Topics = []\<rparr>]\<rparr>)\<rparr>
     (\<lambda>s. s) ''0xabc'' ''4294967296'' [] = Inl (InvalidLogIndex ''4294967296'' ErrRange) \<and>
   resolve 64
     \<lparr>eth_getTransactionByHash = (\<lambda>h. Inr
            \<lparr>tx_Hash = h, tx_BlockNumber = ''0x10'', tx_BlockHash = [], tx_From = [],
             tx_To = [], tx_ChainID = []\<rparr>),
      eth_getTransactionReceipt = (\<lambda>h. Inr
            \<lparr>receipt_TransactionHash = h, receipt_TransactionIndex = ''0x5'',
             receipt_BlockNumber = ''0x10'', receipt_BlockHash = [], receipt_Status = ''0x1'',
             receipt_Logs = [\<lparr>log_LogIndex = [], log_TransactionIndex = [], log_TransactionHash = [],
                 log_BlockHash = [], log_BlockNumber = [], log_Address = [], log_Data = [],
                 log_Topics = []\<rparr>,
               \<lparr>log_LogIndex = [], log_TransactionIndex = [], log_TransactionHash = [],
                 log_BlockHash = [], log_BlockNumber = [], log_Address = [], log_Data = [],
                 log_Topics = []\<rparr>]\<rparr>)\<rparr>
     (\<lambda>s. s) ''0xabc'' ''5'' [] = Inl ChainIDNotFound"
  by (simp add: resolve_def determineLog_def ParseUint_def GetTransaction_def GetTransactionReceipt_def HasPrefix_def HexToUint64_def SetString_def natScan_def digitOf_def isDigit_def byte_def lower_def IsUint64_def)

text \<open>
  C7, as amended. When the fields before the logs are read without error, the
  receipt has logs, no log index is given and an event signature is, the
  resolution takes \<open>GetEventSignatureHash\<close> of the signature without its leading
  and trailing white space (\<open>strings.TrimSpace\<close>) and selects the first log, in
  receipt order, that has a topic and whose first topic is \<open>EqualFold\<close> to that
  hash; when no log matches it fails with \<open>NoLogWithEventSignature\<close> (the
  spec's \<open>NoMatchingLogError\<close>). In the witness the hasher agrees with
  Keccak-256 on \<open>Transfer(address,address,uint256)\<close>, the second and the third
  of three logs match, and index 1 is selected.
\<close>

theorem resolve_by_event_signature:
  assumes "GetTransaction nd txHash = Inr tx"
    and "GetTransactionReceipt nd txHash = Inr receipt"
    and "HexToUint64 (receipt_BlockNumber receipt) = Inr blockNum"
    and "HexToUint64 (receipt_TransactionIndex receipt) = Inr txIdx"
    and "tx_ChainID tx \<noteq> []"
    and "HexToUint64 (tx_ChainID tx) = Inr chainIDUint"
    and "receipt_Logs receipt \<noteq> []"
    and "eventSignature \<noteq> []"
    and "GetEventSignatureHash keccak (TrimSpace eventSignature) = Inr eventHash"
  shows "((\<forall>l \<in> set (receipt_Logs receipt). \<not> (log_Topics l \<noteq> [] \<and> EqualFold (log_Topics l ! 0) eventHash)) \<longrightarrow>
            resolve intSize nd keccak txHash [] eventSignature = Inl (NoLogWithEventSignature eventSignature)) \<and>
         (\<forall>j < length (receipt_Logs receipt).
            log_Topics (receipt_Logs receipt ! j) \<noteq> [] \<and>
            EqualFold (log_Topics (receipt_Logs receipt ! j) ! 0) eventHash \<and>
            (\<forall>j'<j. \<not> (log_Topics (receipt_Logs receipt ! j') \<noteq> [] \<and>
                       EqualFold (log_Topics (receipt_Logs receipt ! j') ! 0) eventHash)) \<longrightarrow>
            resolve intSize nd keccak txHash [] eventSignature =
              Inr \<lparr>chainID = chainIDUint, blockNumber = blockNum, txIndex = txIdx, logIdx = of_nat j\<rparr>)"
proof -
  have eh: "eventHash = ''0x'' @ EncodeToString (keccak (TrimSpace eventSignature))"
    using assms(9) by (simp add: GetEventSignatureHash_def)
  have sel: "determineLog intSize keccak [] eventSignature (receipt_Logs receipt) =
          (case findLog keccak (TrimSpace eventSignature) 0 (receipt_Logs receipt) of
             Inl err \<Rightarrow> Inl err
           | Inr None \<Rightarrow> Inl (NoLogWithEventSignature eventSignature)
           | Inr (Some i) \<Rightarrow> Inr (of_nat i))"
    using assms(7,8) by (simp add: determineLog_def)
  show ?thesis
  proof (intro conjI allI impI)
    assume "\<forall>l \<in> set (receipt_Logs receipt). \<not> (log_Topics l \<noteq> [] \<and> EqualFold (log_Topics l ! 0) eventHash)"
    then have "findLog keccak (TrimSpace eventSignature) 0 (receipt_Logs receipt) = Inr None"
      unfolding eh by (rule findLog_none)
    then show "resolve intSize nd keccak txHash [] eventSignature = Inl (NoLogWithEventSignature eventSignature)"
      by (simp add: resolve_header [OF assms(1-6)] sel)
  next
    fix j
    assume j: "j < length (receipt_Logs receipt)"
      and m: "log_Topics (receipt_Logs receipt ! j) \<noteq> [] \<and>
            EqualFold (log_Topics (receipt_Logs receipt ! j) ! 0) eventHash \<and>
            (\<forall>j'<j. \<not> (log_Topics (receipt_Logs receipt ! j') \<noteq> [] \<and>
                       EqualFold (log_Topics (receipt_Logs receipt ! j') ! 0) eventHash))"
    have "findLog keccak (TrimSpace eventSignature) 0 (receipt_Logs receipt) = Inr (Some (0 + j))"
      using j m unfolding eh by (intro findLog_first) auto
    then show "resolve intSize nd keccak txHash [] eventSignature =
              Inr \<lparr>chainID = chainIDUint, blockNumber = blockNum, txIndex = txIdx, logIdx = of_nat j\<rparr>"
      by (simp add: resolve_header [OF assms(1-6)] sel)
  qed
qed

theorem resolve_by_event_signature_witness:
  "resolve 64
     \<lparr>eth_getTransactionByHash = (\<lambda>h. Inr
            \<lparr>tx_Hash = h, tx_BlockNumber = ''0x10'', tx_BlockHash = [], tx_From = [],
             tx_To = [], tx_ChainID = ''0x1''\<rparr>),
      eth_getTransactionReceipt = (\<lambda>h. Inr
            \<lparr>receipt_TransactionHash = h, receipt_TransactionIndex = ''0x5'',
             receipt_BlockNumber = ''0x10'', receipt_BlockHash = [], receipt_Status = ''0x1'',
             receipt_Logs = [\<lparr>log_LogIndex = [], log_TransactionIndex = [], log_TransactionHash = [],
                 log_BlockHash = [], log_BlockNumber = [], log_Address = [], log_Data = [],
                 log_Topics = [''0x8c5be1e5ebec7d5bd14f71427d1e84f3dd0314c0f7b2291e5b200ac8c7c3b925'']\<rparr>,
               \<lparr>log_LogIndex = [], log_TransactionIndex = [], log_TransactionHash = [],
                 log_BlockHash = [], log_BlockNumber = [], log_Address = [], log_Data = [],
                 log_Topics = [''0xDDF252AD1BE2C89B69C2B068FC378DAA952BA7F163C4A11628F55A4DF523B3EF'',
                   ''0x8c5be1e5ebec7d5bd14f71427d1e84f3dd0314c0f7b2291e5b200ac8c7c3b925'']\<rparr>,
               \<lparr>log_LogIndex = [], log_TransactionIndex = [], log_TransactionHash = [],
                 log_BlockHash = [], log_BlockNumber = [], log_Address = [], log_Data = [],
                 log_Topics = [''0xddf252ad1be2c89b69c2b068fc378daa952ba7f163c4a11628f55a4df523b3ef'']\<rparr>]\<rparr>)\<rparr>
     (\<lambda>s. if s = ''Transfer(address,address,uint256)''
          then [CHR 0xdd, CHR 0xf2, CHR 0x52, CHR 0xad, CHR 0x1b, CHR 0xe2, CHR 0xc8, CHR 0x9b, CHR 0x69, CHR 0xc2, CHR 0xb0, CHR 0x68, CHR 0xfc, CHR 0x37, CHR 0x8d, CHR 0xaa, CHR 0x95, CHR 0x2b, CHR 0xa7, CHR 0xf1, CHR 0x63,
               CHR 0xc4, CHR 0xa1, CHR 0x16, CHR 0x28, CHR 0xf5, CHR 0x5a, CHR 0x4d, CHR 0xf5, CHR 0x23, CHR 0xb3, CHR 0xef]
          else [])
     ''0xabc'' [] '' Transfer(address,address,uint256) '' = Inr \<lparr>chainID = 1, blockNumber = 16, txIndex = 5, logIdx = 1\<rparr> \<and>
   resolve 64
     \<lparr>eth_getTransactionByHash = (\<lambda>h. Inr
            \<lparr>tx_Hash = h, tx_BlockNumber = ''0x10'', tx_BlockHash = [], tx_From = [],
             tx_To = [], tx_ChainID = ''0x1''\<rparr>),
      eth_getTransactionReceipt = (\<lambda>h. Inr
            \<lparr>receipt_TransactionHash = h, receipt_TransactionIndex = ''0x5'',
             receipt_BlockNumber = ''0x10'', receipt_BlockHash = [], receipt_Status = ''0x1'',
             receipt_Logs = [\<lparr>log_LogIndex = [], log_TransactionIndex = [], log_TransactionHash = [],
                 log_BlockHash = [], log_BlockNumber = [], log_Address = [], log_Data = [],
                 log_Topics = [''0x8c5be1e5ebec7d5bd14f71427d1e84f3dd0314c0f7b2291e5b200ac8c7c3b925'']\<rparr>,
               \<lparr>log_LogIndex = [], log_TransactionIndex = [], log_TransactionHash = [],
                 log_BlockHash = [], log_BlockNumber = [], log_Address = [], log_Data = [],
                 log_Topics = []\<rparr>]\<rparr>)\<rparr>
     (\<lambda>s. if s = ''Transfer(address,address,uint256)''
          then [CHR 0xdd, CHR 0xf2, CHR 0x52, CHR 0xad, CHR 0x1b, CHR 0xe2, CHR 0xc8, CHR 0x9b, CHR 0x69, CHR 0xc2, CHR 0xb0, CHR 0x68, CHR 0xfc, CHR 0x37, CHR 0x8d, CHR 0xaa, CHR 0x95, CHR 0x2b, CHR 0xa7, CHR 0xf1, CHR 0x63,
               CHR 0xc4, CHR 0xa1, CHR 0x16, CHR 0x28, CHR 0xf5, CHR 0x5a, CHR 0x4d, CHR 0xf5, CHR 0x23, CHR 0xb3, CHR 0xef]
          else [])
     ''0xabc'' [] ''Transfer(address,address,uint256)'' = Inl (NoLogWithEventSignature ''Transfer(address,address,uint256)'')"
  using resolve_by_event_signature
    [where intSize = 64 and nd = "\<lparr>eth_getTransactionByHash = (\<lambda>h. Inr
            \<lparr>tx_Hash = h, tx_BlockNumber = ''0x10'', tx_BlockHash = [], tx_From = [],
             tx_To = [], tx_ChainID = ''0x1''\<rparr>),
      eth_getTransactionReceipt = (\<lambda>h. Inr
            \<lparr>receipt_TransactionHash = h, receipt_TransactionIndex = ''0x5'',
             receipt_BlockNumber = ''0x10'', receipt_BlockHash = [], receipt_Status = ''0x1'',
             receipt_Logs = [\<lparr>log_LogIndex = [], log_TransactionIndex = [], log_TransactionHash = [],
                 log_BlockHash = [], log_BlockNumber = [], log_Address = [], log_Data = [],
                 log_Topics = [''0x8c5be1e5ebec7d5bd14f71427d1e84f3dd0314c0f7b2291e5b200ac8c7c3b925'']\<rparr>,
               \<lparr>log_LogIndex = [], log_TransactionIndex = [], log_TransactionHash = [],
                 log_BlockHash = [], log_BlockNumber = [], log_Address = [], log_Data = [],
                 log_Topics = [''0xDDF252AD1BE2C89B69C2B068FC378DAA952BA7F163C4A11628F55A4DF523B3EF'',
                   ''0x8c5be1e5ebec7d5bd14f71427d1e84f3dd0314c0f7b2291e5b200ac8c7c3b925'']\<rparr>,
               \<lparr>log_LogIndex = [], log_TransactionIndex = [], log_TransactionHash = [],
                 log_BlockHash = [], log_BlockNumber = [], log_Address = [], log_Data = [],
                 log_Topics = [''0xddf252ad1be2c89b69c2b068fc378daa952ba7f163c4a11628f55a4df523b3ef'']\<rparr>]\<rparr>)\<rparr>"
       and txHash = "''0xabc''"
       and tx = "\<lparr>tx_Hash = ''0xabc'', tx_BlockNumber = ''0x10'', tx_BlockHash = [], tx_From = [],
             tx_To = [], tx_ChainID = ''0x1''\<rparr>"
       and receipt = "\<lparr>receipt_TransactionHash = ''0xabc'', receipt_TransactionIndex = ''0x5'',
             receipt_BlockNumber = ''0x10'', receipt_BlockHash = [], receipt_Status = ''0x1'',
             receipt_Logs = [\<lparr>log_LogIndex = [], log_TransactionIndex = [], log_TransactionHash = [],
                 log_BlockHash = [], log_BlockNumber = [], log_Address = [], log_Data = [],
                 log_Topics = [''0x8c5be1e5ebec7d5bd14f71427d1e84f3dd0314c0f7b2291e5b200ac8c7c3b925'']\<rparr>,
               \<lparr>log_LogIndex = [], log_TransactionIndex = [], log_TransactionHash = [],
                 log_BlockHash = [], log_BlockNumber = [], log_Address = [], log_Data = [],
                 log_Topics = [''0xDDF252AD1BE2C89B69C2B068FC378DAA952BA7F163C4A11628F55A4DF523B3EF'',
                   ''0x8c5be1e5ebec7d5bd14f71427d1e84f3dd0314c0f7b2291e5b200ac8c7c3b925'']\<rparr>,
               \<lparr>log_LogIndex = [], log_TransactionIndex = [], log_TransactionHash = [],
                 log_BlockHash = [], log_BlockNumber = [], log_Address = [], log_Data = [],
                 log_Topics = [''0xddf252ad1be2c89b69c2b068fc378daa952ba7f163c4a11628f55a4df523b3ef'']\<rparr>]\<rparr>"
       and blockNum = "16"
       and txIdx = "5"
       and chainIDUint = "1"
       and keccak = "(\<lambda>s. if s = ''Transfer(address,address,uint256)''
          then [CHR 0xdd, CHR 0xf2, CHR 0x52, CHR 0xad, CHR 0x1b, CHR 0xe2, CHR 0xc8, CHR 0x9b, CHR 0x69, CHR 0xc2, CHR 0xb0, CHR 0x68, CHR 0xfc, CHR 0x37, CHR 0x8d, CHR 0xaa, CHR 0x95, CHR 0x2b, CHR 0xa7, CHR 0xf1, CHR 0x63,
               CHR 0xc4, CHR 0xa1, CHR 0x16, CHR 0x28, CHR 0xf5, CHR 0x5a, CHR 0x4d, CHR 0xf5, CHR 0x23, CHR 0xb3, CHR 0xef]
          else [])"
       and eventSignature = "'' Transfer(address,address,uint256) ''"
       and eventHash = "''0xddf252ad1be2c89b69c2b068fc378daa952ba7f163c4a11628f55a4df523b3ef''",
     THEN conjunct2, rule_format, of 1]
    resolve_by_event_signature
    [where intSize = 64 and nd = "\<lparr>eth_getTransactionByHash = (\<lambda>h. Inr
            \<lparr>tx_Hash = h, tx_BlockNumber = ''0x10'', tx_BlockHash = [], tx_From = [],
             tx_To = [], tx_ChainID = ''0x1''\<rparr>),
      eth_getTransactionReceipt = (\<lambda>h. Inr
            \<lparr>receipt_TransactionHash = h, receipt_TransactionIndex = ''0x5'',
             receipt_BlockNumber = ''0x10'', receipt_BlockHash = [], receipt_Status = ''0x1'',
             receipt_Logs = [\<lparr>log_LogIndex = [], log_TransactionIndex = [], log_TransactionHash = [],
                 log_BlockHash = [], log_BlockNumber = [], log_Address = [], log_Data = [],
                 log_Topics = [''0x8c5be1e5ebec7d5bd14f71427d1e84f3dd0314c0f7b2291e5b200ac8c7c3b925'']\<rparr>,
               \<lparr>log_LogIndex = [], log_TransactionIndex = [], log_TransactionHash = [],
                 log_BlockHash = [], log_BlockNumber = [], log_Address = [], log_Data = [],
                 log_Topics = []\<rparr>]\<rparr>)\<rparr>"
       and txHash = "''0xabc''"
       and tx = "\<lparr>tx_Hash = ''0xabc'', tx_BlockNumber = ''0x10'', tx_BlockHash = [], tx_From = [],
             tx_To = [], tx_ChainID = ''0x1''\<rparr>"
       and receipt = "\<lparr>receipt_TransactionHash = ''0xabc'', receipt_TransactionIndex = ''0x5'',
             receipt_BlockNumber = ''0x10'', receipt_BlockHash = [], receipt_Status = ''0x1'',
             receipt_Logs = [\<lparr>log_LogIndex = [], log_TransactionIndex = [], log_TransactionHash = [],
                 log_BlockHash = [], log_BlockNumber = [], log_Address = [], log_Data = [],
                 log_Topics = [''0x8c5be1e5ebec7d5bd14f71427d1e84f3dd0314c0f7b2291e5b200ac8c7c3b925'']\<rparr>,
               \<lparr>log_LogIndex = [], log_TransactionIndex = [], log_TransactionHash = [],
                 log_BlockHash = [], log_BlockNumber = [], log_Address = [], log_Data = [],
                 log_Topics = []\<rparr>]\<rparr>"
       and blockNum = "16"
       and txIdx = "5"
       and chainIDUint = "1"
       and keccak = "(\<lambda>s. if s = ''Transfer(address,address,uint256)''
          then [CHR 0xdd, CHR 0xf2, CHR 0x52, CHR 0xad, CHR 0x1b, CHR 0xe2, CHR 0xc8, CHR 0x9b, CHR 0x69, CHR 0xc2, CHR 0xb0, CHR 0x68, CHR 0xfc, CHR 0x37, CHR 0x8d, CHR 0xaa, CHR 0x95, CHR 0x2b, CHR 0xa7, CHR 0xf1, CHR 0x63,
               CHR 0xc4, CHR 0xa1, CHR 0x16, CHR 0x28, CHR 0xf5, CHR 0x5a, CHR 0x4d, CHR 0xf5, CHR 0x23, CHR 0xb3, CHR 0xef]
          else [])"
       and eventSignature = "''Transfer(address,address,uint256)''"
       and eventHash = "''0xddf252ad1be2c89b69c2b068fc378daa952ba7f163c4a11628f55a4df523b3ef''",
     THEN conjunct1]
  by (simp add: GetTransaction_def GetTransactionReceipt_def HasPrefix_def HexToUint64_def SetString_def natScan_def digitOf_def isDigit_def byte_def lower_def IsUint64_def TrimSpace_example TrimSpace_example_plain GetEventSignatureHash_example foldByte_def)

text \<open>
  C7 as stated fails. The signature is trimmed before it is hashed: with a
  blank before and after \<open>Transfer(address,address,uint256)\<close> the log whose
  topic is the Keccak-256 digest of the trimmed text is selected, and that
  topic is not the digest of the signature as given (the hasher has the
  Keccak-256 digests of both strings). And when the transaction has no chain
  ID the error is \<open>ChainIDNotFound\<close>, also when no log matches.
\<close>

theorem resolve_by_event_signature_counterexample:
  "resolve 64
     \<lparr>eth_getTransactionByHash = (\<lambda>h. Inr
            \<lparr>tx_Hash = h, tx_BlockNumber = ''0x10'', tx_BlockHash = [], tx_From = [],
             tx_To = [], tx_ChainID = ''0x1''\<rparr>),
      eth_getTransactionReceipt = (\<lambda>h. Inr
            \<lparr>receipt_TransactionHash = h, receipt_TransactionIndex = ''0x5'',
             receipt_BlockNumber = ''0x10'', receipt_BlockHash = [], receipt_Status = ''0x1'',
             receipt_Logs = [\<lparr>log_LogIndex = [], log_TransactionIndex = [], log_TransactionHash = [],
                 log_BlockHash = [], log_BlockNumber = [], log_Address = [], log_Data = [],
                 log_Topics = [''0xddf252ad1be2c89b69c2b068fc378daa952ba7f163c4a11628f55a4df523b3ef'']\<rparr>]\<rparr>)\<rparr>
     (\<lambda>s. if s = ''Transfer(address,address,uint256)''
          then [CHR 0xdd, CHR 0xf2, CHR 0x52, CHR 0xad, CHR 0x1b, CHR 0xe2, CHR 0xc8, CHR 0x9b, CHR 0x69, CHR 0xc2, CHR 0xb0, CHR 0x68, CHR 0xfc, CHR 0x37, CHR 0x8d, CHR 0xaa, CHR 0x95, CHR 0x2b, CHR 0xa7, CHR 0xf1, CHR 0x63,
               CHR 0xc4, CHR 0xa1, CHR 0x16, CHR 0x28, CHR 0xf5, CHR 0x5a, CHR 0x4d, CHR 0xf5, CHR 0x23, CHR 0xb3, CHR 0xef]
          else if s = '' Transfer(address,address,uint256) ''
          then [CHR 0x7e, CHR 0x73, CHR 0xbb, CHR 0x9b, CHR 0x1c, CHR 0xe2, CHR 0xec, CHR 0x26, CHR 0xa7, CHR 0x83, CHR 0x22, CHR 0x8c, CHR 0xcd, CHR 0x65, CHR 0x93, CHR 0x36, CHR 0xdd, CHR 0xdd,
               CHR 0x42, CHR 0x32, CHR 0xee, CHR 0x06, CHR 0xe1, CHR 0xdc, CHR 0x23, CHR 0xd6, CHR 0xcb, CHR 0xbf, CHR 0x13, CHR 0x24, CHR 0x89, CHR 0x59]
          else [])
     ''0xabc'' [] '' Transfer(address,address,uint256) '' = Inr \<lparr>chainID = 1, blockNumber = 16, txIndex = 5, logIdx = 0\<rparr> \<and>
   \<not> EqualFold ''0xddf252ad1be2c89b69c2b068fc378daa952ba7f163c4a11628f55a4df523b3ef''
       (''0x'' @ EncodeToString
          ((\<lambda>s. if s = ''Transfer(address,address,uint256)''
          then [CHR 0xdd, CHR 0xf2, CHR 0x52, CHR 0xad, CHR 0x1b, CHR 0xe2, CHR 0xc8, CHR 0x9b, CHR 0x69, CHR 0xc2, CHR 0xb0, CHR 0x68, CHR 0xfc, CHR 0x37, CHR 0x8d, CHR 0xaa, CHR 0x95, CHR 0x2b, CHR 0xa7, CHR 0xf1, CHR 0x63,
               CHR 0xc4, CHR 0xa1, CHR 0x16, CHR 0x28, CHR 0xf5, CHR 0x5a, CHR 0x4d, CHR 0xf5, CHR 0x23, CHR 0xb3, CHR 0xef]
          else if s = '' Transfer(address,address,uint256) ''
          then [CHR 0x7e, CHR 0x73, CHR 0xbb, CHR 0x9b, CHR 0x1c, CHR 0xe2, CHR 0xec, CHR 0x26, CHR 0xa7, CHR 0x83, CHR 0x22, CHR 0x8c, CHR 0xcd, CHR 0x65, CHR 0x93, CHR 0x36, CHR 0xdd, CHR 0xdd,
               CHR 0x42, CHR 0x32, CHR 0xee, CHR 0x06, CHR 0xe1, CHR 0xdc, CHR 0x23, CHR 0xd6, CHR 0xcb, CHR 0xbf, CHR 0x13, CHR 0x24, CHR 0x89, CHR 0x59]
          else [])
           '' Transfer(address,address,uint256) '')) \<and>
   resolve 64
     \<lparr>eth_getTransactionByHash = (\<lambda>h. Inr
            \<lparr>tx_Hash = h, tx_BlockNumber = ''0x10'', tx_BlockHash = [], tx_From = [],
             tx_To = [], tx_ChainID = []\<rparr>),
      eth_getTransactionReceipt = (\<lambda>h. Inr
            \<lparr>receipt_TransactionHash = h, receipt_TransactionIndex = ''0x5'',
             receipt_BlockNumber = ''0x10'', receipt_BlockHash = [], receipt_Status = ''0x1'',
             receipt_Logs = [\<lparr>log_LogIndex = [], log_TransactionIndex = [], log_TransactionHash = [],
                 log_BlockHash = [], log_BlockNumber = [], log_Address = [], log_Data = [],
                 log_Topics = [''0x8c5be1e5ebec7d5bd14f71427d1e84f3dd0314c0f7b2291e5b200ac8c7c3b925'']\<rparr>,
               \<lparr>log_LogIndex = [], log_TransactionIndex = [], log_TransactionHash = [],
                 log_BlockHash = [], log_BlockNumber = [], log_Address = [], log_Data = [],
                 log_Topics = []\<rparr>]\<rparr>)\<rparr>
     (\<lambda>s. if s = ''Transfer(address,address,uint256)''
          then [CHR 0xdd, CHR 0xf2, CHR 0x52, CHR 0xad, CHR 0x1b, CHR 0xe2, CHR 0xc8, CHR 0x9b, CHR 0x69, CHR 0xc2, CHR 0xb0, CHR 0x68, CHR 0xfc, CHR 0x37, CHR 0x8d, CHR 0xaa, CHR 0x95, CHR 0x2b, CHR 0xa7, CHR 0xf1, CHR 0x63,
               CHR 0xc4, CHR 0xa1, CHR 0x16, CHR 0x28, CHR 0xf5, CHR 0x5a, CHR 0x4d, CHR 0xf5, CHR 0x23, CHR 0xb3, CHR 0xef]
          else if s = '' Transfer(address,address,uint256) ''
          then [CHR 0x7e, CHR 0x73, CHR 0xbb, CHR 0x9b, CHR 0x1c, CHR 0xe2, CHR 0xec, CHR 0x26, CHR 0xa7, CHR 0x83, CHR 0x22, CHR 0x8c, CHR 0xcd, CHR 0x65, CHR 0x93, CHR 0x36, CHR 0xdd, CHR 0xdd,
               CHR 0x42, CHR 0x32, CHR 0xee, CHR 0x06, CHR 0xe1, CHR 0xdc, CHR 0x23, CHR 0xd6, CHR 0xcb, CHR 0xbf, CHR 0x13, CHR 0x24, CHR 0x89, CHR 0x59]
          else [])
     ''0xabc'' [] ''Transfer(address,address,uint256)'' = Inl ChainIDNotFound"
  by (simp add: resolve_def determineLog_def GetEventSignatureHash_def EncodeToString_def digitChar_def
        foldByte_def TrimSpace_example TrimSpace_example_plain GetTransaction_def GetTransactionReceipt_def HasPrefix_def HexToUint64_def SetString_def natScan_def digitOf_def isDigit_def byte_def lower_def IsUint64_def)

section \<open>Lemmas on \<open>%.0f\<close> and \<open>ParseFloat\<close>\<close>

lemma less_10_cases:
  "d < 10 \<Longrightarrow> d = 0 \<or> d = 1 \<or> d = 2 \<or> d = 3 \<or> d = 4 \<or> d = 5 \<or> d = 6 \<or> d = 7 \<or> d = 8 \<or> d = (9::nat)"
  by arith

lemma digitChar_decimal:
  assumes "d < 10"
  shows "isDigit (digitChar d)" and "byte (digitChar d) - byte (CHR ''0'') = d"
    and "digitChar d \<noteq> CHR ''_''" and "digitChar d \<noteq> CHR ''.''"
    and "digitChar d \<noteq> CHR ''+''" and "digitChar d \<noteq> CHR ''-''"
    and "digitChar d \<noteq> CHR ''i''" and "digitChar d \<noteq> CHR ''I''"
    and "digitChar d \<noteq> CHR ''n''" and "digitChar d \<noteq> CHR ''N''"
    and "lower (digitChar d) \<noteq> byte (CHR ''x'')" and "lower (digitChar d) \<noteq> byte (CHR ''e'')"
  using less_10_cases [OF assms]
  by (auto simp: digitChar_def isDigit_def byte_def lower_def)

lemma scanMantissa_digit:
  assumes "d < 10"
  shows "scanMantissa 10 st (digitChar d # cs) =
         scanMantissa 10
           (st\<lparr>sawdigits := True, mantissa := mantissa st * 10 + d,
               fracDigits := fracDigits st + (if sawdot st then 1 else 0)\<rparr>) cs"
  using digitChar_decimal [OF assms] by simp

lemma scanMantissa_showNat:
  "scanMantissa 10 \<lparr>sawdot = False, sawdigits = sd, underscores = False, mantissa = a, fracDigits = 0\<rparr>
     (showNat n @ cs) =
   scanMantissa 10
     \<lparr>sawdot = False, sawdigits = True, underscores = False,
      mantissa = a * 10 ^ length (showNat n) + n, fracDigits = 0\<rparr> cs"
proof (induction n arbitrary: sd a cs rule: showNat.induct)
  case (1 n)
  show ?case
  proof (cases "n < 10")
    case True
    then show ?thesis
      by (simp add: showNat_small scanMantissa_digit del: scanMantissa.simps)
  next
    case False
    have eq: "showNat n = showNat (n div 10) @ [digitChar (n mod 10)]"
      using False by (intro showNat_large) simp
    have IH: "scanMantissa 10 \<lparr>sawdot = False, sawdigits = sd, underscores = False, mantissa = a, fracDigits = 0\<rparr>
                (showNat (n div 10) @ (digitChar (n mod 10) # cs)) =
              scanMantissa 10
                \<lparr>sawdot = False, sawdigits = True, underscores = False,
                 mantissa = a * 10 ^ length (showNat (n div 10)) + n div 10, fracDigits = 0\<rparr>
                (digitChar (n mod 10) # cs)"
      using False by (intro "1.IH") simp
    have ar: "(a * 10 ^ length (showNat (n div 10)) + n div 10) * 10 + n mod 10 =
          a * 10 ^ length (showNat n) + n"
      by (simp add: eq algebra_simps)
    have "scanMantissa 10 \<lparr>sawdot = False, sawdigits = sd, underscores = False, mantissa = a, fracDigits = 0\<rparr>
            (showNat n @ cs) =
          scanMantissa 10
            \<lparr>sawdot = False, sawdigits = True, underscores = False,
             mantissa = a * 10 ^ length (showNat (n div 10)) + n div 10, fracDigits = 0\<rparr>
            (digitChar (n mod 10) # cs)"
      using IH by (simp add: eq del: scanMantissa.simps)
    also have "\<dots> = scanMantissa 10
            \<lparr>sawdot = False, sawdigits = True, underscores = False,
             mantissa = (a * 10 ^ length (showNat (n div 10)) + n div 10) * 10 + n mod 10, fracDigits = 0\<rparr> cs"
      by (subst scanMantissa_digit) simp_all
    finally show ?thesis
      unfolding ar .
  qed
qed

lemma showNat_head: "\<exists>d cs. d < 10 \<and> showNat n = digitChar d # cs"
proof (induction n rule: showNat.induct)
  case (1 n)
  show ?case
  proof (cases "n < 10")
    case True
    then show ?thesis by (auto simp: showNat_small)
  next
    case False
    then obtain d cs where "d < 10" "showNat (n div 10) = digitChar d # cs"
      using "1.IH" by auto
    moreover have "showNat n = showNat (n div 10) @ [digitChar (n mod 10)]"
      using False by (intro showNat_large) simp
    ultimately show ?thesis by auto
  qed
qed

lemma showNat_second_not_x:
  "showNat n = c0 # c1 # cs \<Longrightarrow> lower c1 \<noteq> byte (CHR ''x'')"
proof (induction n arbitrary: c0 c1 cs rule: showNat.induct)
  case (1 n)
  show ?case
  proof (cases "n < 10")
    case True
    with "1.prems" show ?thesis by (simp add: showNat_small)
  next
    case False
    have eq: "showNat n = showNat (n div 10) @ [digitChar (n mod 10)]"
      using False by (intro showNat_large) simp
    obtain d ds where d: "d < 10" "showNat (n div 10) = digitChar d # ds"
      using showNat_head by blast
    show ?thesis
    proof (cases ds)
      case Nil
      with "1.prems" eq d have "c1 = digitChar (n mod 10)" by simp
      then show ?thesis
        using digitChar_decimal(11) [of "n mod 10"] by simp
    next
      case (Cons e es)
      with "1.prems" eq d have "showNat (n div 10) = c0 # c1 # es" by simp
      then show ?thesis
        using "1.IH" False by simp
    qed
  qed
qed

lemma showNat_sign_case:
  "(case showNat n of
      c # cs \<Rightarrow> if c = CHR ''+'' then (False, cs) else if c = CHR ''-'' then (True, cs) else (False, showNat n)
    | [] \<Rightarrow> (False, showNat n)) = (False, showNat n)"
proof -
  obtain d cs where "d < 10" "showNat n = digitChar d # cs"
    using showNat_head by blast
  then show ?thesis
    using digitChar_decimal(5,6) [of d] by simp
qed

lemma showNat_hex_case:
  "(case showNat n of
      c0 # c1 # c2 # cs \<Rightarrow>
        if c0 = CHR ''0'' \<and> lower c1 = byte (CHR ''x'') then (True, c2 # cs) else (False, showNat n)
    | _ \<Rightarrow> (False, showNat n)) = (False, showNat n)"
  by (auto split: list.splits dest: showNat_second_not_x)

lemma scanMantissa_showNat_all:
  "scanMantissa 10 \<lparr>sawdot = False, sawdigits = False, underscores = False, mantissa = 0, fracDigits = 0\<rparr>
     (showNat n) =
   (\<lparr>sawdot = False, sawdigits = True, underscores = False, mantissa = n, fracDigits = 0\<rparr>, [])"
  using scanMantissa_showNat [of False 0 n "[]"] by simp

lemma readFloat_showNat:
  "readFloat (showNat n) = Some (False, False, n, 0, length (showNat n))"
  by (simp add: readFloat_def showNat_sign_case showNat_hex_case scanMantissa_showNat_all readExponent_def)

lemma readFloat_minus_showNat:
  "readFloat (CHR ''-'' # showNat n) = Some (True, False, n, 0, Suc (length (showNat n)))"
  by (simp add: readFloat_def showNat_hex_case scanMantissa_showNat_all readExponent_def)

lemma special_showNat: "special (showNat n) = None"
proof -
  obtain d cs where "d < 10" "showNat n = digitChar d # cs"
    using showNat_head by blast
  then show ?thesis
    using digitChar_decimal(5-10) [of d] by (simp add: special_def)
qed

lemma special_minus_showNat: "special (CHR ''-'' # showNat n) = None"
proof -
  obtain d cs where d: "d < 10" "showNat n = digitChar d # cs"
    using showNat_head by blast
  have "foldByte (digitChar d) \<noteq> byte (CHR ''i'')"
    using less_10_cases [OF d(1)] by (auto simp: foldByte_def digitChar_def byte_def)
  with d show ?thesis
    by (simp add: special_def infinityPrefix_def)
qed

lemma ParseFloat_showNat:
  assumes "n < 2 ^ 1024 - 2 ^ 970"
  shows "ParseFloat (showNat n) = Inr (nearestFloat64 False n 1)"
    and "ParseFloat (CHR ''-'' # showNat n) = Inr (nearestFloat64 True n 1)"
  using assms
  by (simp_all add: ParseFloat_def special_showNat special_minus_showNat readFloat_showNat
        readFloat_minus_showNat not_le)

lemma roundHalfEven_le:
  assumes "2 \<le> d"
  shows "roundHalfEven m d \<le> m"
proof (cases "m = 0")
  case True
  then show ?thesis by (simp add: roundHalfEven_def)
next
  case False
  have "m div d < m"
    using assms False by (simp add: div_less_dividend)
  then have "m div d + 1 \<le> m" by simp
  moreover have "roundHalfEven m d \<le> m div d + 1"
    by (simp add: roundHalfEven_def Let_def)
  ultimately show ?thesis by linarith
qed

lemma float64_integer_bound:
  assumes "isFloat64 (F64 neg m e)"
  shows "(if e \<ge> 0 then m * 2 ^ nat e else roundHalfEven m (2 ^ nat (- e))) < (2 ^ 1024 - 2 ^ 970 :: nat)"
proof (cases "e \<ge> 0")
  case True
  from assms have m: "m \<le> 2 ^ 53 - 1" and e: "nat e \<le> 971"
    by auto
  have p: "(2::nat) ^ nat e \<le> 2 ^ 971"
    using e by (intro power_increasing) simp_all
  have "m * 2 ^ nat e \<le> (2 ^ 53 - 1) * (2 ^ 971 :: nat)"
    by (rule mult_le_mono [OF m p])
  also have "\<dots> < 2 ^ 1024 - 2 ^ 970"
    by simp
  finally show ?thesis
    using True by simp
next
  case False
  then have "(2::nat) \<le> 2 ^ nat (- e)"
    using self_le_power [of "2::nat" "nat (- e)"] by simp
  then have "roundHalfEven m (2 ^ nat (- e)) \<le> m"
    by (rule roundHalfEven_le)
  also have "m < 2 ^ 53"
    using assms by simp
  also have "(2 ^ 53 :: nat) < 2 ^ 1024 - 2 ^ 970"
    by simp
  finally show ?thesis
    using False by simp
qed

lemma ParseFloat_Sprintf_f0:
  assumes "isFloat64 v"
  shows "\<exists>f. ParseFloat (Sprintf_f0 v) = Inr f"
proof (cases v)
  case (F64 neg m e)
  then show ?thesis
    using float64_integer_bound [of neg m e] assms ParseFloat_showNat
    by (cases neg) auto
next
  case (F64Inf neg)
  then show ?thesis
    by (cases neg) (simp_all add: ParseFloat_def special_def infinityPrefix_def foldByte_def byte_def)
next
  case F64NaN
  then show ?thesis
    by (simp add: ParseFloat_def special_def foldByte_def byte_def)
qed

section \<open>Lemmas on the job identifier\<close>

lemma roundHalfEven_multiple: "0 < d \<Longrightarrow> roundHalfEven (a * d) d = a"
  by (simp add: roundHalfEven_def)

lemma showNat_12345: "showNat 12345 = ''12345''"
  by (simp add: showNat_small showNat_large digitChar_def)

lemma Sprintf_f0_12345: "Sprintf_f0 (F64 False (12345 * 2 ^ k) (- int k)) = ''12345''"
proof (cases "k = 0")
  case True
  then show ?thesis by (simp add: showNat_12345)
next
  case False
  then have "roundHalfEven (12345 * 2 ^ k) (2 ^ k) = 12345"
    by (intro roundHalfEven_multiple) simp
  with False show ?thesis by (simp add: showNat_12345)
qed

lemma isDigit_cases:
  assumes "isDigit c"
  shows "c \<in> set ''0123456789''"
proof -
  from assms have "48 \<le> (of_char c :: nat)" and "(of_char c :: nat) \<le> 57"
    by (simp_all add: isDigit_def byte_def)
  then have "(of_char c :: nat) = 48 \<or> (of_char c :: nat) = 49 \<or> (of_char c :: nat) = 50 \<or>
             (of_char c :: nat) = 51 \<or> (of_char c :: nat) = 52 \<or> (of_char c :: nat) = 53 \<or>
             (of_char c :: nat) = 54 \<or> (of_char c :: nat) = 55 \<or> (of_char c :: nat) = 56 \<or>
             (of_char c :: nat) = 57"
    by arith
  then have "(of_char c :: nat) = of_char (CHR ''0'') \<or> (of_char c :: nat) = of_char (CHR ''1'') \<or>
             (of_char c :: nat) = of_char (CHR ''2'') \<or> (of_char c :: nat) = of_char (CHR ''3'') \<or>
             (of_char c :: nat) = of_char (CHR ''4'') \<or> (of_char c :: nat) = of_char (CHR ''5'') \<or>
             (of_char c :: nat) = of_char (CHR ''6'') \<or> (of_char c :: nat) = of_char (CHR ''7'') \<or>
             (of_char c :: nat) = of_char (CHR ''8'') \<or> (of_char c :: nat) = of_char (CHR ''9'')"
    by simp
  then show ?thesis
    unfolding of_char_eq_iff by auto
qed

lemma ParseFloat_first_byte:
  assumes "c \<notin> set ''+-._0123456789iInN''"
  shows "ParseFloat (c # cs) = Inl ErrSyntax"
proof -
  have sp: "special (c # cs) = None"
    using assms by (simp add: special_def)
  have nd: "\<not> isDigit c"
    using assms isDigit_cases [of c] by auto
  have "readFloat (c # cs) = None"
    using assms nd by (auto simp: readFloat_def split: list.splits)
  with sp show ?thesis
    by (simp add: ParseFloat_def)
qed

lemma ParseFloat_empty: "ParseFloat [] = Inl ErrSyntax"
  by (simp add: ParseFloat_def special_def readFloat_def)

section \<open>The job identifier\<close>

text \<open>
  The forms of the job identifier. \<open>RequestProof\<close> returns a string result as it
  is and a numeric result through \<open>%.0f\<close>, so that the number 12345.0 (any of its
  binary forms \<open>12345 * 2 ^ k * 2 ^ - k\<close>) and the string \<open>12345\<close> both give the
  job identifier \<open>12345\<close>; a result of any other type is
  \<open>UnexpectedResultType\<close>. \<open>GetProofStatus\<close> sends the identifier as the number
  \<open>strconv.ParseFloat\<close> reads from it, and fails with \<open>InvalidJobID\<close> (the spec's
  \<open>InvalidJobIDError\<close>), before any exchange, whenever \<open>ParseFloat\<close> rejects it.
\<close>

lemma job_identifier_forms:
  "(requestProofReply R (calls s) c b t l = Inr (JString v) \<longrightarrow>
      RequestProof R c b t l s = (Inr v, s\<lparr>calls := calls s + 1\<rparr>)) \<and>
   (requestProofReply R (calls s) c b t l = Inr (JNumber x) \<longrightarrow>
      RequestProof R c b t l s = (Inr (Sprintf_f0 x), s\<lparr>calls := calls s + 1\<rparr>)) \<and>
   Sprintf_f0 (F64 False (12345 * 2 ^ k) (- int k)) = ''12345'' \<and>
   (requestProofReply R (calls s) c b t l = Inr result \<and> (\<forall>v. result \<noteq> JString v) \<and> (\<forall>x. result \<noteq> JNumber x) \<longrightarrow>
      RequestProof R c b t l s = (Inl (UnexpectedResultType result), s\<lparr>calls := calls s + 1\<rparr>)) \<and>
   (ParseFloat jobID = Inl err \<longrightarrow> GetProofStatus R jobID s = (Inl (InvalidJobID jobID err), s)) \<and>
   (ParseFloat jobID = Inr f \<and> \<not> isFinite f \<longrightarrow> GetProofStatus R jobID s = (Inl MarshalRequestFailed, s)) \<and>
   (ParseFloat jobID = Inr f \<and> isFinite f \<longrightarrow>
      GetProofStatus R jobID s =
        (case queryProofReply R (calls s) f of
           Inl e \<Rightarrow> (Inl (Exchange e), s\<lparr>calls := calls s + 1\<rparr>)
         | Inr r \<Rightarrow> (Inr r, s\<lparr>calls := calls s + 1\<rparr>))) \<and>
   ParseFloat ''12345'' = Inr (F64 False (12345 * 2 ^ 39) (- 39)) \<and>
   ParseFloat [] = Inl ErrSyntax \<and>
   (\<forall>a as. a \<notin> set ''+-._0123456789iInN'' \<longrightarrow> ParseFloat (a # as) = Inl ErrSyntax)"
proof -
  have other: "RequestProof R c b t l s = (Inl (UnexpectedResultType result), s\<lparr>calls := calls s + 1\<rparr>)"
    if "requestProofReply R (calls s) c b t l = Inr result"
      and "\<forall>v. result \<noteq> JString v" and "\<forall>x. result \<noteq> JNumber x"
    using that by (cases result) (simp_all add: RequestProof_def)
  have str: "RequestProof R c b t l s = (Inr v, s\<lparr>calls := calls s + 1\<rparr>)"
    if "requestProofReply R (calls s) c b t l = Inr (JString v)"
    using that by (simp add: RequestProof_def)
  have num: "RequestProof R c b t l s = (Inr (Sprintf_f0 x), s\<lparr>calls := calls s + 1\<rparr>)"
    if "requestProofReply R (calls s) c b t l = Inr (JNumber x)"
    using that by (simp add: RequestProof_def)
  have bad: "GetProofStatus R jobID s = (Inl (InvalidJobID jobID err), s)"
    if "ParseFloat jobID = Inl err"
    using that by (simp add: GetProofStatus_def)
  have inf: "GetProofStatus R jobID s = (Inl MarshalRequestFailed, s)"
    if "ParseFloat jobID = Inr f" and "\<not> isFinite f"
    using that by (simp add: GetProofStatus_def)
  have p: "ParseFloat ''12345'' = Inr (F64 False (12345 * 2 ^ 39) (- 39))"
    by (simp add: ParseFloat_12345)
  show ?thesis
    using other str num bad inf p GetProofStatus_valid [of jobID f R s]
      Sprintf_f0_12345 [of k] ParseFloat_empty ParseFloat_first_byte
    by blast
qed

lemma job_identifier_forms_examples:
  "RequestProof
     \<lparr>requestProofReply = (\<lambda>k c b t l. Inr (JNumber (F64 False 6786735522447360 (- 39)))),
      queryProofReply = (\<lambda>k f. Inr \<lparr>Status = ''pending'', Proof = [], Error = []\<rparr>)\<rparr>
     1 16 5 1 \<lparr>calls = 0, sleeps = []\<rparr> = (Inr ''12345'', \<lparr>calls = 1, sleeps = []\<rparr>) \<and>
   RequestProof
     \<lparr>requestProofReply = (\<lambda>k c b t l. Inr (JString ''12345'')),
      queryProofReply = (\<lambda>k f. Inr \<lparr>Status = ''pending'', Proof = [], Error = []\<rparr>)\<rparr>
     1 16 5 1 \<lparr>calls = 0, sleeps = []\<rparr> = (Inr ''12345'', \<lparr>calls = 1, sleeps = []\<rparr>) \<and>
   RequestProof
     \<lparr>requestProofReply = (\<lambda>k c b t l. Inr (JBool True)),
      queryProofReply = (\<lambda>k f. Inr \<lparr>Status = ''pending'', Proof = [], Error = []\<rparr>)\<rparr>
     1 16 5 1 \<lparr>calls = 0, sleeps = []\<rparr> = (Inl (UnexpectedResultType (JBool True)), \<lparr>calls = 1, sleeps = []\<rparr>) \<and>
   GetProofStatus
     \<lparr>requestProofReply = (\<lambda>k c b t l. Inr (JString ''12345'')),
      queryProofReply = (\<lambda>k f. Inr \<lparr>Status = ''pending'', Proof = [], Error = []\<rparr>)\<rparr>
     ''job-12345'' \<lparr>calls = 0, sleeps = []\<rparr> = (Inl (InvalidJobID ''job-12345'' ErrSyntax), \<lparr>calls = 0, sleeps = []\<rparr>)"
  using job_identifier_forms
    [where R = "\<lparr>requestProofReply = (\<lambda>k c b t l. Inr (JNumber (F64 False 6786735522447360 (- 39)))),
      queryProofReply = (\<lambda>k f. Inr \<lparr>Status = ''pending'', Proof = [], Error = []\<rparr>)\<rparr>"
       and s = "\<lparr>calls = 0, sleeps = []\<rparr>" and c = 1 and b = 16 and t = 5 and l = 1
       and x = "F64 False 6786735522447360 (- 39)" and k = 39]
    job_identifier_forms
    [where R = "\<lparr>requestProofReply = (\<lambda>k c b t l. Inr (JString ''12345'')),
      queryProofReply = (\<lambda>k f. Inr \<lparr>Status = ''pending'', Proof = [], Error = []\<rparr>)\<rparr>"
       and s = "\<lparr>calls = 0, sleeps = []\<rparr>" and c = 1 and b = 16 and t = 5 and l = 1
       and v = "''12345''" and jobID = "''job-12345''" and err = ErrSyntax]
    job_identifier_forms
    [where R = "\<lparr>requestProofReply = (\<lambda>k c b t l. Inr (JBool True)),
      queryProofReply = (\<lambda>k f. Inr \<lparr>Status = ''pending'', Proof = [], Error = []\<rparr>)\<rparr>"
       and s = "\<lparr>calls = 0, sleeps = []\<rparr>" and c = 1 and b = 16 and t = 5 and l = 1
       and result = "JBool True"]
  by simp

text \<open>
  What \<open>ParseFloat\<close> rejects: bytes after the number, a special value that is
  not the whole string, a hexadecimal mantissa without exponent, a value beyond
  the largest \<open>float64\<close>.
\<close>

lemma ParseFloat_rejections:
  "ParseFloat ''12345x'' = Inl ErrSyntax \<and> ParseFloat ''infx'' = Inl ErrSyntax \<and>
   ParseFloat ''0x10'' = Inl ErrSyntax \<and> ParseFloat ''2e308'' = Inl ErrRange"
  by (simp add: ParseFloat_def special_def infinityPrefix_def readFloat_def readExponent_def
        isDigit_def isHexLetter_def byte_def lower_def foldByte_def)

section \<open>The claim on the job identifier that is not numeric\<close>

text \<open>
  C9. The claim has \<open>GetProofStatus\<close> fail with \<open>InvalidJobIDError\<close> whenever the
  identifier is not numeric, and the source departs from it: the check of
  lines 143 to 146 is \<open>strconv.ParseFloat\<close>, which reads \<open>NaN\<close>, \<open>Inf\<close> and
  \<open>Infinity\<close>, in any case and the last two with a sign, as values. On these
  identifiers \<open>GetProofStatus\<close> goes past the check and fails when the request is
  marshalled, with \<open>MarshalRequestFailed\<close> and no exchange, for any remote and
  any state; the identifiers \<open>job-12345\<close> and \<open>2e308\<close>, which \<open>ParseFloat\<close> rejects,
  fail with \<open>InvalidJobID\<close> as the claim says.
\<close>

theorem GetProofStatus_special_identifiers:
  "GetProofStatus R ''NaN'' s = (Inl MarshalRequestFailed, s) \<and>
   GetProofStatus R ''nan'' s = (Inl MarshalRequestFailed, s) \<and>
   GetProofStatus R ''Inf'' s = (Inl MarshalRequestFailed, s) \<and>
   GetProofStatus R ''+inf'' s = (Inl MarshalRequestFailed, s) \<and>
   GetProofStatus R ''-Infinity'' s = (Inl MarshalRequestFailed, s) \<and>
   GetProofStatus R ''job-12345'' s = (Inl (InvalidJobID ''job-12345'' ErrSyntax), s) \<and>
   GetProofStatus R ''2e308'' s = (Inl (InvalidJobID ''2e308'' ErrRange), s)"
  by (simp add: GetProofStatus_def ParseFloat_def special_def infinityPrefix_def readFloat_def
        readExponent_def isDigit_def isHexLetter_def byte_def lower_def foldByte_def)

section \<open>The claim on the identifier made from a number\<close>

text \<open>
  C10. The job identifier that \<open>RequestProof\<close> makes from a numeric result, any
  \<open>float64\<close>, is read by \<open>ParseFloat\<close>, so that \<open>GetProofStatus\<close> never fails with
  \<open>InvalidJobID\<close> on it. The witness is the largest negative \<open>float64\<close>, 309
  digits long in \<open>%.0f\<close>.
\<close>

theorem numeric_job_identifier_parses:
  assumes "requestProofReply R (calls s) c b t l = Inr (JNumber v)"
    and "isFloat64 v"
  shows "\<exists>jobID. fst (RequestProof R c b t l s) = Inr jobID \<and>
           (\<exists>f. ParseFloat jobID = Inr f) \<and>
           (\<forall>R' s' err. fst (GetProofStatus R' jobID s') \<noteq> Inl (InvalidJobID jobID err))"
proof -
  obtain f where f: "ParseFloat (Sprintf_f0 v) = Inr f"
    using ParseFloat_Sprintf_f0 [OF assms(2)] by blast
  have "fst (GetProofStatus R' (Sprintf_f0 v) s') \<noteq> Inl (InvalidJobID (Sprintf_f0 v) err)" for R' s' err
    using f by (simp add: GetProofStatus_def split: sum.splits)
  with f assms(1) show ?thesis
    by (simp add: RequestProof_def)
qed

theorem numeric_job_identifier_parses_witness:
  "\<exists>jobID. fst (RequestProof
       \<lparr>requestProofReply = (\<lambda>k c b t l. Inr (JNumber (F64 True 9007199254740991 971))),
      queryProofReply = (\<lambda>k f. Inr \<lparr>Status = ''pending'', Proof = [], Error = []\<rparr>)\<rparr>
       1 16 5 1 \<lparr>calls = 0, sleeps = []\<rparr>) = Inr jobID \<and>
     (\<exists>f. ParseFloat jobID = Inr f) \<and>
     (\<forall>R' s' err. fst (GetProofStatus R' jobID s') \<noteq> Inl (InvalidJobID jobID err))"
  using numeric_job_identifier_parses
    [where R = "\<lparr>requestProofReply = (\<lambda>k c b t l. Inr (JNumber (F64 True 9007199254740991 971))),
      queryProofReply = (\<lambda>k f. Inr \<lparr>Status = ''pending'', Proof = [], Error = []\<rparr>)\<rparr>"
       and s = "\<lparr>calls = 0, sleeps = []\<rparr>" and c = 1 and b = 16 and t = 5 and l = 1
       and v = "F64 True 9007199254740991 971"]
  by simp

end
